theory Spec2Isabelle
  imports
    Main
    "HOL-Library.Char_ord"
    "HOL-Library.List_Lexorder"
    "HOL-Library.Product_Lexorder"
    "HOL-Library.Option_ord"
    "HOL-Library.Sublist"
    "HOL-Library.Multiset"
begin

section \<open>Values and strings\<close>

text \<open>
  The program passes emails around as Python dicts whose values are either \<open>None\<close> or
  a \<open>str\<close>.  A \<open>str\<close> is modelled as a \<^typ>\<open>string\<close> holding its UTF-8 bytes, so
  the character classes below (\<open>str.strip\<close>, \<open>str.lower\<close>, \<open>\s\<close>, \<open>\d\<close>, \<open>\w\<close>) are
  the ASCII ones: the model is exact on ASCII text.  Byte-wise lexicographic order on
  UTF-8 is the code point order that Python's \<open>sorted\<close> uses on \<open>str\<close>.
\<close>

datatype pyval = PyNone | PyStr string

text \<open>Truthiness of a value, as tested by \<open>or\<close> and \<open>if\<close>.\<close>

fun truthy :: "pyval \<Rightarrow> bool" where
  "truthy PyNone = False"
| "truthy (PyStr s) = (s \<noteq> [])"

text \<open>\<open>a or b\<close>.\<close>

definition py_or :: "pyval \<Rightarrow> pyval \<Rightarrow> pyval" where
  "py_or a b = (if truthy a then a else b)"

text \<open>\<open>a or ""\<close> and similar, where the right operand is a \<open>str\<close> literal: the result is a \<open>str\<close>.\<close>

fun str_or :: "pyval \<Rightarrow> string \<Rightarrow> string" where
  "str_or PyNone d = d"
| "str_or (PyStr s) d = (if s \<noteq> [] then s else d)"

text \<open>How an f-string renders a value: \<open>f"{None}"\<close> is \<open>"None"\<close>.\<close>

fun format_val :: "pyval \<Rightarrow> string" where
  "format_val PyNone = ''None''"
| "format_val (PyStr s) = s"

text \<open>\<open>e.get(k)\<close> and \<open>e.get(k, d)\<close> on a dict.\<close>

definition dict_get :: "(string \<rightharpoonup> pyval) \<Rightarrow> string \<Rightarrow> pyval" where
  "dict_get e k = (case e k of None \<Rightarrow> PyNone | Some v \<Rightarrow> v)"

definition dict_get_default :: "(string \<rightharpoonup> pyval) \<Rightarrow> string \<Rightarrow> pyval \<Rightarrow> pyval" where
  "dict_get_default e k d = (case e k of None \<Rightarrow> d | Some v \<Rightarrow> v)"

definition newline :: string where
  "newline = [CHR 0x0A]"

text \<open>\<open>str.isspace\<close> on ASCII: TAB, LF, VT, FF, CR, the separators 0x1C..0x1F and the space.\<close>

definition is_space :: "char \<Rightarrow> bool" where
  "is_space c = (let n = (of_char c :: nat) in (9 \<le> n \<and> n \<le> 13) \<or> (28 \<le> n \<and> n \<le> 32))"

definition is_upper :: "char \<Rightarrow> bool" where
  "is_upper c = (let n = (of_char c :: nat) in 65 \<le> n \<and> n \<le> 90)"

definition is_alpha :: "char \<Rightarrow> bool" where
  "is_alpha c = (let n = (of_char c :: nat) in (65 \<le> n \<and> n \<le> 90) \<or> (97 \<le> n \<and> n \<le> 122))"

definition is_digit :: "char \<Rightarrow> bool" where
  "is_digit c = (let n = (of_char c :: nat) in 48 \<le> n \<and> n \<le> 57)"

text \<open>\<open>\w\<close>: letters, digits and the underscore.\<close>

definition is_word :: "char \<Rightarrow> bool" where
  "is_word c = (is_alpha c \<or> is_digit c \<or> c = CHR ''_'')"

definition lower_char :: "char \<Rightarrow> char" where
  "lower_char c = (if is_upper c then char_of ((of_char c :: nat) + 32) else c)"

text \<open>\<open>s.lower()\<close>.\<close>

definition lower :: "string \<Rightarrow> string" where
  "lower s = map lower_char s"

text \<open>\<open>s.strip()\<close>.\<close>

definition strip :: "string \<Rightarrow> string" where
  "strip s = rev (dropWhile is_space (rev (dropWhile is_space s)))"

text \<open>\<open>sep.join(parts)\<close>.\<close>

fun join :: "string \<Rightarrow> string list \<Rightarrow> string" where
  "join sep [] = []"
| "join sep [x] = x"
| "join sep (x # y # ys) = x @ sep @ join sep (y # ys)"

text \<open>\<open>any(w in t for w in words)\<close>; \<open>w in t\<close> on strings is \<^const>\<open>sublist\<close>.\<close>

definition any_in :: "string list \<Rightarrow> string \<Rightarrow> bool" where
  "any_in ws t = list_ex (\<lambda>w. sublist w t) ws"

text \<open>\<open>xs[:k]\<close> for an integer \<open>k\<close>: a negative \<open>k\<close> counts from the end.\<close>

definition slice_to :: "'a list \<Rightarrow> int \<Rightarrow> 'a list" where
  "slice_to xs k = (if 0 \<le> k then take (nat k) xs else take (nat (int (length xs) + k)) xs)"

section \<open>Regular expressions\<close>

text \<open>
  The fragment of Python's \<open>re\<close> that the program's patterns use: character classes,
  concatenation, the greedy \<open>?\<close> and the greedy \<open>+\<close>.  \<open>rx_ends r s\<close> lists, in the
  order in which the backtracking matcher tries them, the rests of \<open>s\<close> after each way
  of matching \<open>r\<close> at the start of \<open>s\<close>.
\<close>

datatype regex = Cls "char \<Rightarrow> bool" | Cat regex regex | Opt regex | Plus regex

fun rx_ends :: "regex \<Rightarrow> string \<Rightarrow> string list" where
  "rx_ends (Cls p) s = (case s of [] \<Rightarrow> [] | c # cs \<Rightarrow> if p c then [cs] else [])"
| "rx_ends (Cat a b) s = concat (map (rx_ends b) (rx_ends a s))"
| "rx_ends (Opt a) s = rx_ends a s @ [s]"
| "rx_ends (Plus a) s =
     concat (map (\<lambda>s'. if length s' < length s then rx_ends (Plus a) s' @ [s'] else [s'])
                 (rx_ends a s))"

text \<open>
  \<open>re.findall(r, s)\<close> for a pattern without capturing groups: the leftmost match, then
  the search goes on behind it; an empty match is reported and the search moves on by
  one character.
\<close>

function findall :: "regex \<Rightarrow> string \<Rightarrow> string list" where
  "findall r s =
     (case rx_ends r s of
        [] \<Rightarrow> (case s of [] \<Rightarrow> [] | _ # cs \<Rightarrow> findall r cs)
      | rest # _ \<Rightarrow>
          (let m = take (length s - length rest) s in
           if m = [] then m # (case s of [] \<Rightarrow> [] | _ # cs \<Rightarrow> findall r cs)
           else m # findall r rest))"
  by pat_completeness auto
termination
  by (relation "measure (\<lambda>(r, s). length s)") auto

declare findall.simps [simp del]

definition rx_char :: "char \<Rightarrow> regex" where
  "rx_char c = Cls (\<lambda>x. x = c)"

definition rx_space_or_dash :: regex where
  "rx_space_or_dash = Cls (\<lambda>c. is_space c \<or> c = CHR ''-'')"

definition rx_digit :: regex where
  "rx_digit = Cls is_digit"

section \<open>Heuristic analyzer (services/nlp\_service.py)\<close>

definition POS_WORDS :: "string list" where
  "POS_WORDS = [''great'', ''thanks'', ''thank you'', ''appreciate'', ''love'', ''awesome'', ''good'']"

definition NEG_WORDS :: "string list" where
  "NEG_WORDS = [''issue'', ''problem'', ''angry'', ''frustrated'', ''not working'', ''cannot'',
                ''error'', ''fail'']"

definition URGENT_WORDS :: "string list" where
  "URGENT_WORDS = [''urgent'', ''immediately'', ''asap'', ''critical'', ''cannot access'', ''down'',
                   ''outage'', ''blocked'']"

text \<open>\<open>[A-Za-z0-9._%+-]+@[A-Za-z0-9.-]+\.[A-Za-z]{2,}\<close>\<close>

definition EMAIL_REGEX :: regex where
  "EMAIL_REGEX =
     Cat (Plus (Cls (\<lambda>c. is_alpha c \<or> is_digit c \<or> c \<in> set ''._%+-'')))
    (Cat (rx_char (CHR ''@''))
    (Cat (Plus (Cls (\<lambda>c. is_alpha c \<or> is_digit c \<or> c \<in> set ''.-'')))
    (Cat (rx_char (CHR ''.''))
    (Cat (Cls is_alpha) (Plus (Cls is_alpha))))))"

text \<open>\<open>(?:\+?\d[\s-]?)?(?:\(?\d{3}\)?[\s-]?)?\d{3}[\s-]?\d{4}\<close>\<close>

definition PHONE_REGEX :: regex where
  "PHONE_REGEX =
     Cat (Opt (Cat (Opt (rx_char (CHR ''+''))) (Cat rx_digit (Opt rx_space_or_dash))))
    (Cat (Opt (Cat (Opt (rx_char (CHR ''(''))) (Cat rx_digit (Cat rx_digit (Cat rx_digit
              (Cat (Opt (rx_char (CHR '')''))) (Opt rx_space_or_dash)))))))
    (Cat rx_digit (Cat rx_digit (Cat rx_digit
    (Cat (Opt rx_space_or_dash)
    (Cat rx_digit (Cat rx_digit (Cat rx_digit rx_digit))))))))"

text \<open>\<open>_sentiment(text)\<close>\<close>

definition sentiment_of :: "string \<Rightarrow> string" where
  "sentiment_of text =
     (let t = lower text;
          pos = any_in POS_WORDS t;
          neg = any_in NEG_WORDS t
      in if pos \<and> \<not> neg then ''Positive''
         else if neg \<and> \<not> pos then ''Negative''
         else ''Neutral'')"

text \<open>\<open>_priority(text)\<close>\<close>

definition priority_of :: "string \<Rightarrow> string" where
  "priority_of text =
     (let t = lower text in if any_in URGENT_WORDS t then ''Urgent'' else ''Not urgent'')"

text \<open>\<open>_extract_contacts(text)\<close>; \<open>sorted(set(xs))\<close> is the sorted list of the distinct elements.\<close>

definition extract_contacts :: "string \<Rightarrow> string" where
  "extract_contacts text =
     (let emails = findall EMAIL_REGEX text;
          phones = findall PHONE_REGEX text;
          parts = (if emails \<noteq> [] then [''Emails: '' @ join '', '' (take 3 (sort (remdups emails)))]
                   else [])
                @ (if phones \<noteq> [] then [''Phones: '' @ join '', '' (take 3 (sort (remdups phones)))]
                   else [])
      in join '' | '' parts)"

text \<open>
  \<open>re.split(r"(?<=[.!?])\s+", text)\<close>: a run of whitespace right behind one of
  \<open>. ! ?\<close> separates two pieces.  \<open>cur\<close> is the piece read so far, reversed.
\<close>

function split_sentences :: "string \<Rightarrow> string \<Rightarrow> string list" where
  "split_sentences cur [] = [rev cur]"
| "split_sentences cur (c # cs) =
     (if is_space c \<and> cur \<noteq> [] \<and> hd cur \<in> set ''.!?''
      then rev cur # split_sentences [] (dropWhile is_space cs)
      else split_sentences (c # cur) cs)"
  by pat_completeness auto
termination
  by (relation "measure (\<lambda>(cur, s). length s)")
     (auto simp: length_dropWhile_le less_Suc_eq_le)

definition requirement_keys :: "string list" where
  "requirement_keys = [''need'', ''require'', ''want'', ''request'', ''help'', ''cannot'', ''unable'',
                       ''fix'', ''access'', ''please'']"

text \<open>\<open>_extract_requirements(text)\<close>\<close>

definition extract_requirements :: "string \<Rightarrow> string" where
  "extract_requirements text =
     (if text = [] then []
      else let sentences = split_sentences [] (strip text);
               reqs = filter (\<lambda>s. any_in requirement_keys (lower s)) sentences
           in join '' '' (take 3 reqs))"

section \<open>The environment of a run\<close>

text \<open>
  What the program reads from outside itself during one run, made explicit:
  \<^item> \<open>GEMINI_API_KEY\<close>: the result of \<open>os.getenv("GEMINI_API_KEY")\<close>;
  \<^item> \<open>gemini prompt max_tokens\<close>: the result of \<open>_call_gemini\<close>, the text of the external
    service or \<open>None\<close> when the call fails (the wrapper catches every exception);
    within one run the same prompt is taken to get the same answer;
  \<^item> \<open>json_loads\<close>: \<open>json.loads\<close> followed by the four \<open>parsed.get\<close> calls, \<open>None\<close> when
    any of them raises (the text is no JSON, or no JSON object); values other than
    \<open>null\<close> and strings are not modelled;
  \<^item> \<open>kb_dir\<close>: \<open>None\<close> when the directory \<open>knowledge_base\<close> does not exist, otherwise
    the files that \<open>KB_DIR.glob("*.txt")\<close> enumerates, in that order, each with its name
    and its text (\<open>None\<close> when \<open>read_text\<close> raises);
  \<^item> \<open>py_hash\<close>: the builtin \<open>hash\<close> of this process;
  \<^item> \<open>utcnow_iso i\<close>: \<open>datetime.utcnow().isoformat()\<close> as read while the \<open>i\<close>-th email
    of the batch is processed;
  \<^item> \<open>iso_timestamp s\<close>: \<open>datetime.fromisoformat(s).timestamp()\<close> in microseconds,
    \<open>None\<close> when it raises;
  \<^item> \<open>sqlite_datetime s\<close>: the value of SQLite's \<open>datetime(s)\<close> on a text, \<open>None\<close> for
    \<open>NULL\<close>.
\<close>

record env =
  GEMINI_API_KEY :: pyval
  gemini :: "string \<Rightarrow> nat \<Rightarrow> pyval"
  json_loads :: "string \<Rightarrow> (string \<rightharpoonup> pyval) option"
  kb_dir :: "(string \<times> string option) list option"
  py_hash :: "pyval \<Rightarrow> int"
  utcnow_iso :: "nat \<Rightarrow> string"
  iso_timestamp :: "string \<Rightarrow> int option"
  sqlite_datetime :: "string \<Rightarrow> string option"

section \<open>Emails and their analysis\<close>

text \<open>The dict \<open>e_norm\<close>; every key is present, so \<open>email_obj.get(k, d)\<close> is the field.\<close>

record email =
  message_id :: pyval
  sender :: pyval
  subject :: pyval
  body :: pyval
  received_at :: pyval

text \<open>The dict that \<open>analyze_email\<close> returns, with its four keys.\<close>

record analysis =
  an_sentiment :: pyval
  an_priority :: pyval
  an_requirements :: pyval
  an_contacts :: pyval

text \<open>The baseline \<open>result\<close> of \<open>analyze_email\<close>.\<close>

definition heuristic_result :: "string \<Rightarrow> string \<Rightarrow> analysis" where
  "heuristic_result subject' body' =
     (let combined = strip (subject' @ newline @ body')
      in \<lparr> an_sentiment = PyStr (sentiment_of combined),
           an_priority = PyStr (priority_of combined),
           an_requirements = PyStr (extract_requirements body'),
           an_contacts = PyStr (extract_contacts body') \<rparr>)"

definition nlp_prompt :: "string \<Rightarrow> string \<Rightarrow> string" where
  \<open>nlp_prompt subject' body' = join newline
     ['''',
      ''You are an assistant that extracts metadata from a support email.'',
      ''Analyze the email below and return a valid JSON object with exactly these keys:'',
      ''- "priority": one of ["Urgent", "Not urgent"]'',
      ''- "sentiment": one of ["Positive", "Negative", "Neutral"]'',
      ''- "requirements": short text summarizing the customer'' @ [CHR 0x27] @
        ''s request (1-2 sentences)'',
      ''- "contacts": comma-separated contact info (emails, phones) if present'',
      '''',
      ''Email:'',
      ''Subject: '' @ subject',
      ''Body: '' @ body',
      '''',
      ''Return *only* a JSON object.'',
      '''']\<close>

text \<open>
  \<open>re.search(r"\{.*\}", raw, re.S)\<close>: from the first \<open>{\<close> to the last \<open>}\<close> behind it;
  the whole text when there is no such match.
\<close>

definition json_substring :: "string \<Rightarrow> string" where
  "json_substring raw =
     (let from_brace = dropWhile (\<lambda>c. c \<noteq> CHR ''{'') raw
      in if from_brace \<noteq> [] \<and> CHR ''}'' \<in> set (tl from_brace)
         then rev (dropWhile (\<lambda>c. c \<noteq> CHR ''}'') (rev from_brace))
         else raw)"

text \<open>\<open>analyze_email(email_obj)\<close>\<close>

definition analyze_email :: "env \<Rightarrow> email \<Rightarrow> analysis" where
  "analyze_email ev email_obj =
     (let subject' = str_or (subject email_obj) [];
          body' = str_or (body email_obj) [];
          result = heuristic_result subject' body'
      in if truthy (GEMINI_API_KEY ev)
         then (case gemini ev (nlp_prompt subject' body') 250 of
                 PyNone \<Rightarrow> result
               | PyStr raw \<Rightarrow>
                   if raw \<noteq> []
                   then (case json_loads ev (json_substring raw) of
                           None \<Rightarrow> result
                         | Some parsed \<Rightarrow>
                             \<lparr> an_sentiment = py_or (dict_get parsed ''sentiment'') (an_sentiment result),
                               an_priority = py_or (dict_get parsed ''priority'') (an_priority result),
                               an_requirements =
                                 py_or (dict_get parsed ''requirements'') (an_requirements result),
                               an_contacts = py_or (dict_get parsed ''contacts'') (an_contacts result) \<rparr>)
                   else result)
         else result)"

section \<open>Knowledge base and response drafter (services/response\_service.py)\<close>

text \<open>\<open>_tokenize(text)\<close>: \<open>re.findall(r"\w+", (text or "").lower())\<close>\<close>

definition tokenize :: "pyval \<Rightarrow> string list" where
  "tokenize text' = findall (Plus (Cls is_word)) (lower (str_or text' []))"

text \<open>One of the dicts that \<open>retrieve_relevant_kb\<close> returns.\<close>

record kb_match =
  kb_score :: nat
  kb_text :: string
  kb_source :: string

text \<open>The dict \<open>{"score": c[0], "text": c[1], "source": c[2]}\<close> of a candidate \<open>c\<close>.\<close>

definition to_match :: "nat \<times> string \<times> string \<Rightarrow> kb_match" where
  "to_match c = \<lparr> kb_score = fst c, kb_text = fst (snd c), kb_source = snd (snd c) \<rparr>"

text \<open>
  The loop of \<open>retrieve_relevant_kb\<close> over the files: an unreadable file is skipped, a
  file with overlap 0 is left out.
\<close>

definition kb_candidates ::
  "string set \<Rightarrow> (string \<times> string option) list \<Rightarrow> (nat \<times> string \<times> string) list" where
  "kb_candidates email_tokens files =
     concat (map (\<lambda>(name, content).
                    case content of
                      None \<Rightarrow> []
                    | Some txt \<Rightarrow>
                        (let doc_tokens = set (tokenize (PyStr txt));
                             overlap = email_tokens \<inter> doc_tokens;
                             score = card overlap
                         in if score > 0 then [(score, txt, name)] else []))
                 files)"

text \<open>
  \<open>retrieve_relevant_kb(email_body, top_k)\<close>.  \<open>candidates.sort(key=..., reverse=True)\<close>
  is stable: it sorts by descending score and keeps equal scores in their order.
\<close>

definition retrieve_relevant_kb :: "env \<Rightarrow> pyval \<Rightarrow> int \<Rightarrow> kb_match list" where
  "retrieve_relevant_kb ev email_body top_k =
     (let email_tokens = set (tokenize email_body)
      in case kb_dir ev of
           None \<Rightarrow> []
         | Some files \<Rightarrow>
             if email_tokens = {} then []
             else let candidates = kb_candidates email_tokens files;
                      ranked = sort_key (\<lambda>c. - int (fst c)) candidates
                  in map to_match (slice_to ranked top_k))"

text \<open>Exceptions that leave a function of the program.\<close>

datatype error = AttributeError

text \<open>The prompt that \<open>generate_response\<close> builds.\<close>

definition response_prompt :: "pyval \<Rightarrow> pyval \<Rightarrow> kb_match list \<Rightarrow> string" where
  "response_prompt subject' body' contexts =
     (let kb_text = (if contexts \<noteq> []
                     then join (newline @ newline @ ''---'' @ newline @ newline)
                            (map (\<lambda>c. ''['' @ kb_source c @ '']'' @ newline @ kb_text c) contexts)
                     else []);
          prompt_parts =
            [''You are a professional customer support agent. Write a concise, polite, empathetic reply.'',
             ''Customer message (subject): '' @ format_val subject',
             ''Customer message (body): '' @ format_val body',
             '''']
            @ (if kb_text \<noteq> []
               then [''Use the following knowledge-base excerpts to answer and reference them where appropriate:'',
                     kb_text,
                     '''']
               else [])
            @ [''Constraints:'',
               ''- Maintain a friendly professional tone.'',
               ''- Acknowledge frustration if sentiment is Negative.'',
               ''- If the message mentions a product/feature, reference it.'',
               ''- Keep it short (4-8 sentences).'',
               ''- Do NOT include any internal notes or JSON, only the reply text.'']
      in join newline prompt_parts)"

text \<open>
  The fallback draft of \<open>generate_response\<close>.  The source file holds the dash of
  \<open>tone_open\<close> as the eight bytes written out below.
\<close>

definition fallback_draft :: "string \<Rightarrow> analysis \<Rightarrow> string" where
  "fallback_draft sender' an =
     (let tone_open =
            (if an_sentiment an \<noteq> PyStr ''Negative'' then ''Thanks for reaching out.''
             else ''I'' @ [CHR 0x27] @ ''m really sorry for the trouble you'' @ [CHR 0x27] @ ''re facing ''
                  @ [CHR 0xC3, CHR 0xA2, CHR 0xE2, CHR 0x82, CHR 0xAC, CHR 0xE2, CHR 0x80, CHR 0x9D]
                  @ '' thank you for reporting this.'');
          priority_line =
            (if an_priority an = PyStr ''Urgent''
             then ''I'' @ [CHR 0x27] @ ''ve marked this as urgent and escalated it to our team.''
             else ''I'' @ [CHR 0x27] @ ''ve logged this request and our team will follow up.'');
          requirements = str_or (an_requirements an) ''the details you shared'';
          closing = ''If you can share screenshots or any additional details, please reply to this message.''
      in ''Hi '' @ strip (takeWhile (\<lambda>c. c \<noteq> CHR ''<'') sender') @ '','' @ newline @ newline
         @ tone_open @ '' Based on your message, I understand: '' @ requirements @ ''.'' @ newline @ newline
         @ priority_line @ '' '' @ closing @ newline @ newline
         @ ''Best regards,'' @ newline @ ''Support Team'')"

text \<open>
  \<open>generate_response(email_obj, analysis)\<close>.  \<open>sender.split('<')\<close> raises
  \<open>AttributeError\<close> when the sender is \<open>None\<close>.
\<close>

definition generate_response :: "env \<Rightarrow> email \<Rightarrow> analysis \<Rightarrow> error + string" where
  "generate_response ev email_obj an =
     (let sender' = sender email_obj;
          subject' = subject email_obj;
          body' = body email_obj;
          contexts = retrieve_relevant_kb ev body' 3;
          prompt = response_prompt subject' body' contexts;
          fallback = (case sender' of
                        PyNone \<Rightarrow> Inl AttributeError
                      | PyStr s \<Rightarrow> Inr (fallback_draft s an))
      in if truthy (GEMINI_API_KEY ev)
         then (case gemini ev prompt 400 of
                 PyNone \<Rightarrow> fallback
               | PyStr out \<Rightarrow> if out \<noteq> [] then Inr (strip out) else fallback)
         else fallback)"

section \<open>Ingestion pipeline (app.py)\<close>

text \<open>\<open>str(n)\<close> for an integer, as an f-string renders \<open>hash(...)\<close>.\<close>

fun show_nat :: "nat \<Rightarrow> string" where
  "show_nat n = (if n < 10 then [char_of (48 + n)] else show_nat (n div 10) @ [char_of (48 + n mod 10)])"

declare show_nat.simps [simp del]

definition show_int :: "int \<Rightarrow> string" where
  "show_int i = (if i < 0 then CHR ''-'' # show_nat (nat (- i)) else show_nat (nat i))"

text \<open>
  A raw email is a dict from keys to values.  The identifier derived when the source
  gives none: \<open>f"{e.get('sender')}_{e.get('subject')}_{hash(e.get('body',''))}"\<close>.
\<close>

type_synonym raw_email = "string \<rightharpoonup> pyval"

definition derived_message_id :: "env \<Rightarrow> raw_email \<Rightarrow> string" where
  "derived_message_id ev e =
     format_val (dict_get e ''sender'') @ ''_'' @ format_val (dict_get e ''subject'') @ ''_''
     @ show_int (py_hash ev (dict_get_default e ''body'' (PyStr [])))"

text \<open>The dict \<open>e_norm\<close> built for the \<open>i\<close>-th raw email of the batch.\<close>

definition normalize_raw :: "env \<Rightarrow> nat \<Rightarrow> raw_email \<Rightarrow> email" where
  "normalize_raw ev i e =
     \<lparr> message_id = py_or (dict_get e ''message_id'') (PyStr (derived_message_id ev e)),
       sender = dict_get_default e ''sender'' (PyStr []),
       subject = py_or (dict_get_default e ''subject'' (PyStr [])) (PyStr []),
       body = py_or (dict_get_default e ''body'' (PyStr [])) (PyStr []),
       received_at = py_or (dict_get e ''received_at'') (PyStr (utcnow_iso ev i)) \<rparr>"

text \<open>The dict \<open>rec\<close>, which is also what \<open>upsert_emails\<close> expects.\<close>

record email_rec = email +
  priority :: pyval
  sentiment :: pyval
  requirements :: pyval
  contacts :: pyval
  draft_reply :: pyval
  status :: pyval

text \<open>One iteration of the loop of \<open>ingest_latest\<close>.\<close>

definition process_email :: "env \<Rightarrow> nat \<Rightarrow> raw_email \<Rightarrow> error + email_rec" where
  "process_email ev i e =
     (let e_norm = normalize_raw ev i e;
          an = analyze_email ev e_norm
      in case generate_response ev e_norm an of
           Inl err \<Rightarrow> Inl err
         | Inr draft \<Rightarrow>
             Inr \<lparr> message_id = message_id e_norm,
                   sender = sender e_norm,
                   subject = subject e_norm,
                   body = body e_norm,
                   received_at = received_at e_norm,
                   priority = an_priority an,
                   sentiment = an_sentiment an,
                   requirements = an_requirements an,
                   contacts = an_contacts an,
                   draft_reply = PyStr draft,
                   status = PyStr ''pending'' \<rparr>)"

text \<open>The whole loop: an exception in one iteration leaves \<open>ingest_latest\<close>.\<close>

fun process_all :: "env \<Rightarrow> nat \<Rightarrow> raw_email list \<Rightarrow> error + email_rec list" where
  "process_all ev i [] = Inr []"
| "process_all ev i (e # es) =
     (case process_email ev i e of
        Inl err \<Rightarrow> Inl err
      | Inr r \<Rightarrow> (case process_all ev (Suc i) es of
                    Inl err \<Rightarrow> Inl err
                  | Inr rs \<Rightarrow> Inr (r # rs)))"

text \<open>
  \<open>sort_key(r)\<close>: the pair \<open>(pri, ts_key)\<close>.  The timestamp is counted in microseconds,
  the resolution of \<open>datetime\<close>; the float that \<open>timestamp()\<close> returns orders the same
  way up to rounding.  Any exception of the parse gives the key \<open>0\<close>.
\<close>

definition sort_key_of :: "env \<Rightarrow> email_rec \<Rightarrow> nat \<times> int" where
  "sort_key_of ev r =
     (let pri = (if priority r = PyStr ''Urgent'' then 0 else 1);
          ts_key = (case received_at r of
                      PyNone \<Rightarrow> 0
                    | PyStr s \<Rightarrow> (case iso_timestamp ev s of None \<Rightarrow> 0 | Some ts \<Rightarrow> - ts))
      in (pri, ts_key))"

text \<open>\<open>processed.sort(key=sort_key)\<close>, a stable sort.\<close>

definition sort_batch :: "env \<Rightarrow> email_rec list \<Rightarrow> email_rec list" where
  "sort_batch ev processed = sort_key (sort_key_of ev) processed"

section \<open>Record store (utils/db.py)\<close>

text \<open>
  The table \<open>emails\<close> that \<open>init_db\<close> creates: the rows in the order of their
  \<open>id\<close>, and the counter that \<open>AUTOINCREMENT\<close> keeps in \<open>sqlite_sequence\<close>.  A column
  value is \<open>NULL\<close> (\<^const>\<open>PyNone\<close>) or a text.
\<close>

record db_row =
  row_id :: nat
  cols :: email_rec

record db =
  emails :: "db_row list"
  sqlite_sequence :: nat

text \<open>The table right behind \<open>CREATE TABLE\<close>.\<close>

definition init_db :: db where
  "init_db = \<lparr> emails = [], sqlite_sequence = 0 \<rparr>"

text \<open>
  The constraint \<open>message_id TEXT UNIQUE\<close>: a new row conflicts with a stored row of
  the same \<open>message_id\<close>; \<open>NULL\<close> conflicts with nothing.
\<close>

definition unique_conflict :: "email_rec \<Rightarrow> db \<Rightarrow> bool" where
  "unique_conflict r d =
     (message_id r \<noteq> PyNone \<and> list_ex (\<lambda>row. message_id (cols row) = message_id r) (emails d))"

text \<open>
  One execution of the statement \<open>INSERT ... ON CONFLICT(message_id) DO UPDATE SET ...\<close>.
  The insert draws the next \<open>id\<close> from the counter whether or not it then runs into
  the conflict; on a conflict the stored row keeps its \<open>id\<close> and takes the ten other
  columns from the new record.
\<close>

definition upsert_row :: "email_rec \<Rightarrow> db \<Rightarrow> db" where
  "upsert_row r d =
     (let new_id = sqlite_sequence d + 1
      in if unique_conflict r d
         then \<lparr> emails = map (\<lambda>row. if message_id (cols row) = message_id r
                                      then row\<lparr>cols := r\<rparr> else row) (emails d),
                sqlite_sequence = new_id \<rparr>
         else \<lparr> emails = emails d @ [\<lparr> row_id = new_id, cols = r \<rparr>],
                sqlite_sequence = new_id \<rparr>)"

text \<open>\<open>upsert_emails(emails)\<close>: \<open>executemany\<close> runs the statement once per record, in order.\<close>

definition upsert_emails :: "email_rec list \<Rightarrow> db \<Rightarrow> db" where
  "upsert_emails recs d = (if recs = [] then d else fold upsert_row recs d)"

text \<open>
  A key type with the order turned round, for \<open>ORDER BY ... DESC\<close>.  \<open>NULL\<close> is the
  least value of SQLite, so it comes last in descending order.
\<close>

datatype 'a desc = Desc 'a

instantiation desc :: (linorder) linorder
begin

definition less_eq_desc :: "'a desc \<Rightarrow> 'a desc \<Rightarrow> bool" where
  "less_eq_desc x y = (case x of Desc a \<Rightarrow> (case y of Desc b \<Rightarrow> b \<le> a))"

definition less_desc :: "'a desc \<Rightarrow> 'a desc \<Rightarrow> bool" where
  "less_desc x y = (case x of Desc a \<Rightarrow> (case y of Desc b \<Rightarrow> b < a))"

instance
  by standard (auto simp: less_eq_desc_def less_desc_def split: desc.splits)

end

text \<open>\<open>CASE WHEN priority='Urgent' THEN 0 ELSE 1 END\<close>\<close>

definition priority_case :: "db_row \<Rightarrow> nat" where
  "priority_case row = (if priority (cols row) = PyStr ''Urgent'' then 0 else 1)"

text \<open>\<open>datetime(received_at)\<close>\<close>

definition datetime_received :: "env \<Rightarrow> db_row \<Rightarrow> string option" where
  "datetime_received ev row =
     (case received_at (cols row) of PyNone \<Rightarrow> None | PyStr s \<Rightarrow> sqlite_datetime ev s)"

text \<open>\<open>LIMIT ?\<close>: a negative limit is no limit.\<close>

definition sql_limit :: "int \<Rightarrow> 'a list \<Rightarrow> 'a list" where
  "sql_limit limit xs = (if limit < 0 then xs else take (nat limit) xs)"

text \<open>
  \<open>fetch_emails(order_by_priority, limit)\<close>.  SQL leaves the order of rows with equal
  sort keys open; SQLite returns them in the order of the table, which is what the
  stable sort gives.
\<close>

definition fetch_emails :: "env \<Rightarrow> bool \<Rightarrow> int \<Rightarrow> db \<Rightarrow> db_row list" where
  "fetch_emails ev order_by_priority limit d =
     (if order_by_priority
      then sql_limit limit
             (sort_key (\<lambda>row. (priority_case row, Desc (datetime_received ev row))) (emails d))
      else sql_limit limit
             (sort_key (\<lambda>row. Desc (datetime_received ev row)) (emails d)))"

section \<open>The pipeline as a whole\<close>

text \<open>
  \<open>ingest_latest()\<close>.  The batch \<open>raw_emails\<close> is what \<open>fetch_support_emails\<close> returns; that
  function is not among the sources, so the batch is an argument.
\<close>

definition ingest_latest :: "env \<Rightarrow> raw_email list \<Rightarrow> db \<Rightarrow> error + db" where
  "ingest_latest ev raw_emails d =
     (case process_all ev 0 raw_emails of
        Inl err \<Rightarrow> Inl err
      | Inr processed \<Rightarrow>
          (let ordered = sort_batch ev processed
           in if ordered \<noteq> [] then Inr (upsert_emails ordered d) else Inr d))"

section \<open>The library calls on the timestamps the program writes\<close>

text \<open>
  Concrete readings of the two date parsers, on the strings of the shape that
  \<open>datetime.isoformat()\<close> writes: \<open>YYYY-MM-DD\<close>, then optionally a separator and
  \<open>HH:MM:SS\<close>, a fraction and a zone offset \<open>+HH:MM\<close>.  Both parsers accept further
  shapes (and differ between versions there); the definitions below answer \<open>None\<close>
  outside the shape they describe, and the theorems that use them evaluate them only
  on strings inside it.  The general results quantify over every environment instead.
\<close>

text \<open>The number that a non-empty string of decimal digits denotes.\<close>

definition read_digits :: "string \<Rightarrow> int option" where
  "read_digits s =
     (if s \<noteq> [] \<and> list_all is_digit s
      then Some (foldl (\<lambda>a c. 10 * a + (of_char c - 48)) 0 s)
      else None)"

definition is_leap :: "int \<Rightarrow> bool" where
  "is_leap y = (y mod 4 = 0 \<and> (y mod 100 \<noteq> 0 \<or> y mod 400 = 0))"

definition days_in_month :: "int \<Rightarrow> int \<Rightarrow> int" where
  "days_in_month y m =
     (if m = 2 then (if is_leap y then 29 else 28)
      else if m = 4 \<or> m = 6 \<or> m = 9 \<or> m = 11 then 30 else 31)"

text \<open>\<open>YYYY-MM-DD\<close> naming a day of the calendar.\<close>

definition parse_date :: "string \<Rightarrow> (int \<times> int \<times> int) option" where
  "parse_date s =
     (if length s = 10 \<and> s ! 4 = CHR ''-'' \<and> s ! 7 = CHR ''-''
      then (case (read_digits (take 4 s), read_digits (take 2 (drop 5 s)), read_digits (drop 8 s)) of
              (Some y, Some m, Some d) \<Rightarrow>
                if 1 \<le> m \<and> m \<le> 12 \<and> 1 \<le> d \<and> d \<le> days_in_month y m then Some (y, m, d) else None
            | _ \<Rightarrow> None)
      else None)"

text \<open>\<open>HH:MM:SS\<close> as seconds of the day.\<close>

definition parse_hms :: "string \<Rightarrow> int option" where
  "parse_hms s =
     (if length s = 8 \<and> s ! 2 = CHR '':'' \<and> s ! 5 = CHR '':''
      then (case (read_digits (take 2 s), read_digits (take 2 (drop 3 s)), read_digits (drop 6 s)) of
              (Some h, Some m, Some sec) \<Rightarrow>
                if h < 24 \<and> m < 60 \<and> sec < 60 then Some (h * 3600 + m * 60 + sec) else None
            | _ \<Rightarrow> None)
      else None)"

text \<open>The number of days from 1970-01-01 to a day of the proleptic Gregorian calendar.\<close>

definition days_from_civil :: "int \<Rightarrow> int \<Rightarrow> int \<Rightarrow> int" where
  "days_from_civil y m d =
     (let y' = (if m \<le> 2 then y - 1 else y);
          era = y' div 400;
          yoe = y' - era * 400;
          mp = (if m > 2 then m - 3 else m + 9);
          doy = (153 * mp + 2) div 5 + d - 1;
          doe = yoe * 365 + yoe div 4 - yoe div 100 + doy
      in era * 146097 + doe - 719468)"

text \<open>A fraction of a second with three or six digits, in microseconds.\<close>

definition parse_fraction :: "string \<Rightarrow> int option" where
  "parse_fraction s =
     (case read_digits s of
        None \<Rightarrow> None
      | Some n \<Rightarrow> if length s = 3 then Some (n * 1000) else if length s = 6 then Some n else None)"

text \<open>A zone offset \<open>+HH:MM\<close> or \<open>-HH:MM\<close> in seconds; the empty string is no offset.\<close>

definition parse_offset :: "string \<Rightarrow> int option" where
  "parse_offset s =
     (if s = [] then Some 0
      else if length s = 6 \<and> (hd s = CHR ''+'' \<or> hd s = CHR ''-'') \<and> s ! 3 = CHR '':''
      then (case (read_digits (take 2 (drop 1 s)), read_digits (drop 4 s)) of
              (Some h, Some m) \<Rightarrow>
                if h < 24 \<and> m < 60
                then Some ((if hd s = CHR ''-'' then - 1 else 1) * (h * 3600 + m * 60))
                else None
            | _ \<Rightarrow> None)
      else None)"

text \<open>
  \<open>datetime.fromisoformat(s).timestamp()\<close> in microseconds, with the local zone of the
  process taken to be UTC for a string without offset.
\<close>

definition python_iso_timestamp :: "string \<Rightarrow> int option" where
  "python_iso_timestamp s =
     (case parse_date (take 10 s) of
        None \<Rightarrow> None
      | Some (y, m, d) \<Rightarrow>
          if y < 1 then None
          else let day_us = days_from_civil y m d * 86400000000;
                   rest = drop 11 s
               in if length s \<le> 10 then Some day_us
                  else (case parse_hms (take 8 rest) of
                          None \<Rightarrow> None
                        | Some secs \<Rightarrow>
                            (let after = drop 8 rest;
                                 frac = (if after \<noteq> [] \<and> hd after = CHR ''.''
                                         then takeWhile is_digit (tl after) else []);
                                 zone = (if after \<noteq> [] \<and> hd after = CHR ''.''
                                         then dropWhile is_digit (tl after) else after)
                             in case (if after \<noteq> [] \<and> hd after = CHR ''.''
                                      then parse_fraction frac else Some 0,
                                      parse_offset zone) of
                                  (Some us, Some off) \<Rightarrow>
                                    Some (day_us + (secs - off) * 1000000 + us)
                                | _ \<Rightarrow> None)))"

text \<open>
  SQLite's \<open>datetime(s)\<close> on a time value without zone: the date, a blank and the time
  of day cut to whole seconds.
\<close>

definition sqlite_datetime_naive :: "string \<Rightarrow> string option" where
  "sqlite_datetime_naive s =
     (case parse_date (take 10 s) of
        None \<Rightarrow> None
      | Some _ \<Rightarrow>
          if length s = 10 then Some (s @ '' 00:00:00'')
          else if s ! 10 = CHR '' '' \<or> s ! 10 = CHR ''T''
          then (let rest = drop 11 s
                in case parse_hms (take 8 rest) of
                     None \<Rightarrow> None
                   | Some _ \<Rightarrow>
                       (let after = drop 8 rest
                        in if after = [] \<or> (hd after = CHR ''.'' \<and> tl after \<noteq> [] \<and> list_all is_digit (tl after))
                           then Some (take 10 s @ '' '' @ take 8 rest)
                           else None))
          else None)"

section \<open>Notions used to state the properties\<close>

text \<open>
  Case-insensitive substring: the lower-cased word occurs in the lower-cased text.
  Lemma \<open>ci_substring_iff\<close> below says this is an occurrence of some spelling of the word.
\<close>

definition ci_substring :: "string \<Rightarrow> string \<Rightarrow> bool" where
  "ci_substring w text' = sublist (lower w) (lower text')"

text \<open>A word in lower case that neither starts nor ends with whitespace.\<close>

definition plain_word :: "string \<Rightarrow> bool" where
  "plain_word w = (w \<noteq> [] \<and> \<not> is_space (hd w) \<and> \<not> is_space (last w) \<and> lower w = w)"

text \<open>An analysis whose sentiment and priority are among the values of the data model.\<close>

definition valid_analysis :: "analysis \<Rightarrow> bool" where
  "valid_analysis an =
     (an_sentiment an \<in> {PyStr ''Positive'', PyStr ''Negative'', PyStr ''Neutral''}
      \<and> an_priority an \<in> {PyStr ''Urgent'', PyStr ''Not urgent''})"

text \<open>
  The word tokens of a text: its maximal runs of letters, digits and underscores, from
  left to right.
\<close>

function word_runs :: "string \<Rightarrow> string list" where
  "word_runs [] = []"
| "word_runs (c # cs) =
     (if is_word c then (c # takeWhile is_word cs) # word_runs (dropWhile is_word cs)
      else word_runs cs)"
  by pat_completeness auto
termination
  by (relation "measure length") (auto simp: length_dropWhile_le less_Suc_eq_le)

text \<open>The overlap score of a query and a document text.\<close>

definition overlap_score :: "pyval \<Rightarrow> string \<Rightarrow> nat" where
  "overlap_score query txt = card (set (tokenize query) \<inter> set (tokenize (PyStr txt)))"

text \<open>The readable documents of a knowledge base with a positive score, in enumeration order.\<close>

definition kb_hits :: "pyval \<Rightarrow> (string \<times> string option) list \<Rightarrow> kb_match list" where
  "kb_hits query files =
     concat (map (\<lambda>(name, content).
                    case content of
                      None \<Rightarrow> []
                    | Some txt \<Rightarrow>
                        if overlap_score query txt > 0
                        then [\<lparr> kb_score = overlap_score query txt, kb_text = txt, kb_source = name \<rparr>]
                        else [])
                 files)"

text \<open>A record or a row of the first priority tier.\<close>

definition urgent :: "email_rec \<Rightarrow> bool" where
  "urgent r = (priority r = PyStr ''Urgent'')"

text \<open>The parsed received timestamp of a record, \<open>None\<close> when the parse fails.\<close>

definition parsed_ts :: "env \<Rightarrow> email_rec \<Rightarrow> int option" where
  "parsed_ts ev r = (case received_at r of PyNone \<Rightarrow> None | PyStr s \<Rightarrow> iso_timestamp ev s)"

text \<open>A sequence of calls of \<open>upsert_emails\<close>, one per batch.\<close>

definition upsert_calls :: "email_rec list list \<Rightarrow> db \<Rightarrow> db" where
  "upsert_calls batches d = fold upsert_emails batches d"

text \<open>The stored rows under a message identifier.\<close>

definition rows_under :: "pyval \<Rightarrow> db \<Rightarrow> db_row list" where
  "rows_under m d = filter (\<lambda>row. message_id (cols row) = m) (emails d)"

text \<open>No two stored rows share a message identifier other than \<open>NULL\<close>.\<close>

definition unique_ids :: "db \<Rightarrow> bool" where
  "unique_ids d = distinct (filter (\<lambda>m. m \<noteq> PyNone) (map (\<lambda>row. message_id (cols row)) (emails d)))"

text \<open>
  A stored row after a batch has been upserted onto it: it carries the last record of
  the batch with its message identifier, if there is one.
\<close>

definition overwritten :: "email_rec list \<Rightarrow> db_row \<Rightarrow> db_row" where
  "overwritten recs row =
     (let same = filter (\<lambda>r. message_id r = message_id (cols row)) recs
      in if same = [] then row else row\<lparr>cols := last same\<rparr>)"

text \<open>Successive runs of \<open>ingest_latest\<close> over the same batch, one per environment.\<close>

fun ingest_runs :: "env list \<Rightarrow> raw_email list \<Rightarrow> db \<Rightarrow> error + db" where
  "ingest_runs [] raw_emails d = Inr d"
| "ingest_runs (ev # evs) raw_emails d =
     (case ingest_latest ev raw_emails d of
        Inl err \<Rightarrow> Inl err
      | Inr d' \<Rightarrow> ingest_runs evs raw_emails d')"

text \<open>The stored records after a run, without their row numbers.\<close>

definition stored :: "error + db \<Rightarrow> email_rec list" where
  "stored res = (case res of Inl err \<Rightarrow> [] | Inr d \<Rightarrow> map cols (emails d))"

text \<open>
  An environment without credential and without knowledge base directory, whose
  clock reads \<open>now\<close> and whose hash is constant.
\<close>

definition offline_env :: "string \<Rightarrow> env" where
  "offline_env now =
     \<lparr> GEMINI_API_KEY = PyNone,
       gemini = (\<lambda>prompt max_tokens. PyNone),
       json_loads = (\<lambda>jtxt. None),
       kb_dir = None,
       py_hash = (\<lambda>v. 0),
       utcnow_iso = (\<lambda>i. now),
       iso_timestamp = python_iso_timestamp,
       sqlite_datetime = sqlite_datetime_naive \<rparr>"

text \<open>
  A parser that reads one JSON text, the object with the one key \<open>priority\<close> and the
  value \<open>Urgent\<close>, and fails on every other text.
\<close>

definition sample_json_loads :: "string \<Rightarrow> (string \<rightharpoonup> pyval) option" where
  \<open>sample_json_loads jtxt =
     (if jtxt = ''{"priority": "Urgent"}'' then Some [''priority'' \<mapsto> PyStr ''Urgent''] else None)\<close>

text \<open>
  An environment with a credential whose service answers every prompt with \<open>answer\<close>
  and whose parser is \<open>sample_json_loads\<close>.
\<close>

definition answering_env :: "string \<Rightarrow> env" where
  "answering_env answer = (offline_env ''2024-01-01T00:00:00'')
     \<lparr> GEMINI_API_KEY := PyStr ''key'', gemini := (\<lambda>prompt max_tokens. PyStr answer),
       json_loads := sample_json_loads \<rparr>"

text \<open>An environment without credential whose knowledge base holds the given files.\<close>

definition kb_env :: "(string \<times> string option) list \<Rightarrow> env" where
  "kb_env files = (offline_env ''2024-01-01T00:00:00'') \<lparr> kb_dir := Some files \<rparr>"

text \<open>A record with the given identifier, priority and received timestamp.\<close>

definition sample_rec :: "string \<Rightarrow> string \<Rightarrow> string \<Rightarrow> email_rec" where
  "sample_rec mid pri ts =
     \<lparr> message_id = PyStr mid, sender = PyStr ''a@example.com'', subject = PyStr ''Help'',
       body = PyStr ''Please help'', received_at = PyStr ts,
       priority = PyStr pri, sentiment = PyStr ''Neutral'', requirements = PyStr ''Please help'',
       contacts = PyStr [], draft_reply = PyStr ''Hi'', status = PyStr ''pending'' \<rparr>"

text \<open>A raw email with the given keys.\<close>

definition sample_raw :: "(string \<times> pyval) list \<Rightarrow> raw_email" where
  "sample_raw kvs = map_of kvs"

section \<open>Properties of the heuristic analyzer\<close>

lemma sort_remdups_Nil: "sort (remdups xs) = [] \<longleftrightarrow> xs = []"
  by (metis length_sort length_0_conv remdups_eq_nil_iff)

lemma take3_sort_remdups_Nil: "take 3 (sort (remdups xs)) = [] \<longleftrightarrow> xs = []"
  by (simp add: take_eq_Nil sort_remdups_Nil)

text \<open>
  Claim C9.  The contacts of the heuristic analysis are computed from the body alone,
  the subject plays no part: the matches of the email pattern and of the phone pattern
  in the body are each deduplicated, sorted lexicographically and cut to three, and
  rendered as \<open>Emails: a, b, c | Phones: x, y, z\<close>; a segment without match is left out,
  and the result is the empty string when both are.
\<close>

theorem contacts_format:
  "an_contacts (heuristic_result subject' body') =
     PyStr (let es = take 3 (sorted_list_of_set (set (findall EMAIL_REGEX body')));
                ps = take 3 (sorted_list_of_set (set (findall PHONE_REGEX body')))
            in if es = [] \<and> ps = [] then []
               else if ps = [] then ''Emails: '' @ join '', '' es
               else if es = [] then ''Phones: '' @ join '', '' ps
               else ''Emails: '' @ join '', '' es @ '' | '' @ ''Phones: '' @ join '', '' ps)"
  by (simp add: heuristic_result_def extract_contacts_def Let_def
        sorted_list_of_set_sort_remdups take3_sort_remdups_Nil sort_remdups_Nil del: set_remdups)

theorem contacts_format_witness:
  "findall EMAIL_REGEX ''Reach me at a@b.com or 555-123-4567'' = [''a@b.com'']
   \<and> findall PHONE_REGEX ''Reach me at a@b.com or 555-123-4567'' = [''555-123-4567'']
   \<and> an_contacts (heuristic_result ''Write to x@y.org'' ''Reach me at a@b.com or 555-123-4567'')
       = PyStr ''Emails: a@b.com | Phones: 555-123-4567''
   \<and> findall EMAIL_REGEX ''z@z.com b@b.org a@a.net c@c.io a@a.net''
       = [''z@z.com'', ''b@b.org'', ''a@a.net'', ''c@c.io'', ''a@a.net'']
   \<and> an_contacts (heuristic_result [] ''z@z.com b@b.org a@a.net c@c.io a@a.net'')
       = PyStr ''Emails: a@a.net, b@b.org, c@c.io''
   \<and> an_contacts (heuristic_result ''Call 555-123-4567 or mail x@y.org'' ''Hello there'') = PyStr []"
proof -
  have e1: "findall EMAIL_REGEX ''Reach me at a@b.com or 555-123-4567'' = [''a@b.com'']"
    by code_simp
  have p1: "findall PHONE_REGEX ''Reach me at a@b.com or 555-123-4567'' = [''555-123-4567'']"
    by code_simp
  have e2: "findall EMAIL_REGEX ''z@z.com b@b.org a@a.net c@c.io a@a.net''
              = [''z@z.com'', ''b@b.org'', ''a@a.net'', ''c@c.io'', ''a@a.net'']"
    by code_simp
  have p2: "findall PHONE_REGEX ''z@z.com b@b.org a@a.net c@c.io a@a.net'' = []"
    by code_simp
  have e3: "findall EMAIL_REGEX ''Hello there'' = []"
    by code_simp
  have p3: "findall PHONE_REGEX ''Hello there'' = []"
    by code_simp
  have s1: "take 3 (sorted_list_of_set (set [''a@b.com''])) = [''a@b.com'']"
    by code_simp
  have s2: "take 3 (sorted_list_of_set (set [''555-123-4567''])) = [''555-123-4567'']"
    by code_simp
  have s3: "take 3 (sorted_list_of_set (set [''z@z.com'', ''b@b.org'', ''a@a.net'', ''c@c.io'', ''a@a.net'']))
              = [''a@a.net'', ''b@b.org'', ''c@c.io'']"
    by code_simp
  have j1: "''Emails: '' @ join '', '' [''a@b.com''] @ '' | '' @ ''Phones: '' @ join '', '' [''555-123-4567'']
              = ''Emails: a@b.com | Phones: 555-123-4567''"
    by code_simp
  have j2: "''Emails: '' @ join '', '' [''a@a.net'', ''b@b.org'', ''c@c.io'']
              = ''Emails: a@a.net, b@b.org, c@c.io''"
    by code_simp
  have c1: "an_contacts (heuristic_result ''Write to x@y.org'' ''Reach me at a@b.com or 555-123-4567'')
              = PyStr ''Emails: a@b.com | Phones: 555-123-4567''"
    using contacts_format [of "''Write to x@y.org''" "''Reach me at a@b.com or 555-123-4567''"]
    unfolding e1 p1 s1 s2 Let_def using j1 by simp
  have c2: "an_contacts (heuristic_result [] ''z@z.com b@b.org a@a.net c@c.io a@a.net'')
              = PyStr ''Emails: a@a.net, b@b.org, c@c.io''"
    using contacts_format [of "[]" "''z@z.com b@b.org a@a.net c@c.io a@a.net''"]
    unfolding e2 p2 s3 Let_def using j2 by simp
  have c3: "an_contacts (heuristic_result ''Call 555-123-4567 or mail x@y.org'' ''Hello there'') = PyStr []"
    using contacts_format [of "''Call 555-123-4567 or mail x@y.org''" "''Hello there''"]
    unfolding e3 p3 Let_def by simp
  from e1 p1 e2 c1 c2 c3 show ?thesis by simp
qed

lemma is_space_lower_char: "is_space (lower_char c) = is_space c"
proof (cases "is_upper c")
  case True
  then have "of_char (char_of (of_char c + 32 :: nat)) = (of_char c + 32 :: nat)"
    by (simp add: is_upper_def Let_def)
  with True show ?thesis
    by (auto simp: lower_char_def is_space_def is_upper_def Let_def)
next
  case False
  then show ?thesis by (simp add: lower_char_def)
qed

lemma lower_strip: "lower (strip t) = strip (lower t)"
  by (simp add: lower_def strip_def rev_map dropWhile_map comp_def is_space_lower_char)

lemma dropWhile_keeps_word:
  assumes "w \<noteq> []" "\<not> P (hd w)"
  shows "\<exists>ps'. dropWhile P (ps @ w @ ss) = ps' @ w @ ss"
proof (induction ps)
  case Nil
  from assms have "dropWhile P (w @ ss) = w @ ss" by (cases w) auto
  then show ?case by (intro exI[of _ "[]"]) simp
next
  case (Cons p ps)
  then show ?case by (cases "P p") (auto intro: exI[of _ "p # ps"])
qed

lemma sublist_strip:
  assumes "w \<noteq> []" "\<not> is_space (hd w)" "\<not> is_space (last w)"
  shows "sublist w (strip t) \<longleftrightarrow> sublist w t"
proof
  assume "sublist w (strip t)"
  moreover have "sublist (strip t) t"
  proof -
    have "suffix (dropWhile is_space t) t" by (rule suffix_dropWhile)
    moreover have "prefix (strip t) (dropWhile is_space t)"
      unfolding strip_def
      by (metis suffix_dropWhile suffix_to_prefix rev_rev_ident)
    ultimately show ?thesis
      by (meson prefix_imp_sublist suffix_imp_sublist sublist_order.order_trans)
  qed
  ultimately show "sublist w t" by (meson sublist_order.order_trans)
next
  assume "sublist w t"
  then obtain ps ss where t: "t = ps @ w @ ss" by (auto simp: sublist_def)
  from dropWhile_keeps_word[of w is_space ps ss] assms obtain ps' where
    1: "dropWhile is_space (ps @ w @ ss) = ps' @ w @ ss" by blast
  have "rev w \<noteq> []" "\<not> is_space (hd (rev w))" using assms by (simp_all add: hd_rev)
  from dropWhile_keeps_word[of "rev w" is_space "rev ss" "rev ps'"] this obtain qs where
    2: "dropWhile is_space (rev ss @ rev w @ rev ps') = qs @ rev w @ rev ps'" by blast
  have "strip t = ps' @ w @ rev qs"
    by (simp add: strip_def t 1 2)
  then show "sublist w (strip t)" by (auto simp: sublist_def)
qed


lemma map_eq_append3D:
  assumes "map f t = ps @ m @ ss"
  shows "\<exists>a u c. t = a @ u @ c \<and> map f u = m"
proof -
  let ?a = "take (length ps) t"
  let ?u = "take (length m) (drop (length ps) t)"
  let ?c = "drop (length m) (drop (length ps) t)"
  have "t = ?a @ ?u @ ?c"
    by (metis append_take_drop_id)
  moreover have "map f ?u = take (length m) (drop (length ps) (map f t))"
    by (simp add: take_map drop_map)
  then have "map f ?u = m" by (simp add: assms)
  ultimately show ?thesis by blast
qed

lemma ci_substring_iff:
  "ci_substring w t \<longleftrightarrow> (\<exists>u. sublist u t \<and> lower u = lower w)"
proof
  assume "ci_substring w t"
  then obtain ps ss where "map lower_char t = ps @ map lower_char w @ ss"
    by (auto simp: ci_substring_def sublist_def lower_def)
  from map_eq_append3D[OF this] obtain a u c where
    "t = a @ u @ c" "map lower_char u = map lower_char w" by blast
  then show "\<exists>u. sublist u t \<and> lower u = lower w"
    by (auto simp: sublist_def lower_def)
next
  assume "\<exists>u. sublist u t \<and> lower u = lower w"
  then obtain u ps ss where "t = ps @ u @ ss" "lower u = lower w"
    by (auto simp: sublist_def)
  then have "lower t = lower ps @ lower w @ lower ss" by (simp add: lower_def)
  then show "ci_substring w t" unfolding ci_substring_def sublist_def by blast
qed

lemma plain_POS_WORDS: "list_all plain_word POS_WORDS"
  by (simp add: POS_WORDS_def plain_word_def is_space_def lower_def lower_char_def is_upper_def)

lemma plain_NEG_WORDS: "list_all plain_word NEG_WORDS"
  by (simp add: NEG_WORDS_def plain_word_def is_space_def lower_def lower_char_def is_upper_def)

lemma any_in_strip:
  assumes "list_all plain_word ws"
  shows "any_in ws (lower (strip t)) = list_ex (\<lambda>w. ci_substring w t) ws"
proof -
  have "sublist w (lower (strip t)) = ci_substring w t" if "w \<in> set ws" for w
  proof -
    from that assms have pw: "plain_word w" by (simp add: list_all_iff)
    then have "sublist w (strip (lower t)) = sublist w (lower t)"
      by (intro sublist_strip) (simp_all add: plain_word_def)
    with pw show ?thesis by (simp add: lower_strip ci_substring_def plain_word_def)
  qed
  then show ?thesis by (auto simp: any_in_def list_ex_iff)
qed

text \<open>
  Claim C8.  The heuristic sentiment is decided by case-insensitive substring search
  of the positive and the negative words in subject, newline, body: a positive word
  and no negative one gives Positive, a negative word and no positive one gives
  Negative, both or neither give Neutral.  (The program strips the text first; no word
  starts or ends with whitespace, so that changes nothing.)
\<close>

theorem sentiment_classification:
  "an_sentiment (heuristic_result subject' body') =
     PyStr (let text' = subject' @ newline @ body';
                pos = list_ex (\<lambda>w. ci_substring w text') POS_WORDS;
                neg = list_ex (\<lambda>w. ci_substring w text') NEG_WORDS
            in if pos \<and> \<not> neg then ''Positive''
               else if neg \<and> \<not> pos then ''Negative''
               else ''Neutral'')"
  by (simp add: heuristic_result_def sentiment_of_def Let_def
        any_in_strip[OF plain_POS_WORDS] any_in_strip[OF plain_NEG_WORDS])

theorem sentiment_classification_witness:
  "an_sentiment (heuristic_result ''Great news'' ''It works. THANK YOU'') = PyStr ''Positive''"
proof -
  have pos: "list_ex (\<lambda>w. ci_substring w (''Great news'' @ newline @ ''It works. THANK YOU'')) POS_WORDS"
    by code_simp
  have neg: "\<not> list_ex (\<lambda>w. ci_substring w (''Great news'' @ newline @ ''It works. THANK YOU'')) NEG_WORDS"
    by code_simp
  show ?thesis
    using sentiment_classification [of "''Great news''" "''It works. THANK YOU''"] pos neg
    by (simp add: Let_def)
qed

section \<open>Properties of the knowledge base retrieval\<close>

lemma rx_ends_plus_cls:
  "rx_ends (Plus (Cls p)) (c # cs) = (if p c then rx_ends (Plus (Cls p)) cs @ [cs] else [])"
  by simp

lemma rx_ends_plus_Nil: "rx_ends (Plus (Cls p)) [] = []"
  by simp

lemma hd_rx_ends_plus:
  "p c \<Longrightarrow> rx_ends (Plus (Cls p)) (c # cs) \<noteq> []
     \<and> hd (rx_ends (Plus (Cls p)) (c # cs)) = dropWhile p cs"
proof (induction cs arbitrary: c)
  case Nil
  then show ?case by (simp only: rx_ends_plus_cls rx_ends_plus_Nil) simp
next
  case (Cons d ds)
  have step: "rx_ends (Plus (Cls p)) (c # d # ds) = rx_ends (Plus (Cls p)) (d # ds) @ [d # ds]"
    using Cons.prems by (simp only: rx_ends_plus_cls if_True)
  show ?case
  proof (cases "p d")
    case True
    from Cons.IH[OF True] have "rx_ends (Plus (Cls p)) (d # ds) \<noteq> []"
      and "hd (rx_ends (Plus (Cls p)) (d # ds)) = dropWhile p ds" by blast+
    with True show ?thesis unfolding step by (simp del: rx_ends.simps)
  next
    case False
    then have "rx_ends (Plus (Cls p)) (d # ds) = []" by (simp only: rx_ends_plus_cls if_False)
    with False show ?thesis unfolding step by (simp del: rx_ends.simps)
  qed
qed

lemma findall_plus_Nil: "findall (Plus (Cls p)) [] = []"
  by (simp add: findall.simps)

lemma findall_plus_Cons:
  "findall (Plus (Cls p)) (c # cs) =
     (if p c then (c # takeWhile p cs) # findall (Plus (Cls p)) (dropWhile p cs)
      else findall (Plus (Cls p)) cs)"
proof (cases "p c")
  case True
  from hd_rx_ends_plus[of p c cs] True obtain rest more where
    r: "rx_ends (Plus (Cls p)) (c # cs) = rest # more" "rest = dropWhile p cs"
    by (cases "rx_ends (Plus (Cls p)) (c # cs)") auto
  have len: "length (c # cs) - length (dropWhile p cs) = Suc (length (takeWhile p cs))"
  proof -
    have "length cs = length (takeWhile p cs) + length (dropWhile p cs)"
      by (metis length_append takeWhile_dropWhile_id)
    then show ?thesis by simp
  qed
  have "take (Suc (length (takeWhile p cs))) (c # cs) = c # takeWhile p cs"
    by (simp add: takeWhile_eq_take[symmetric])
  with r len True show ?thesis
    by (subst findall.simps) (simp add: Let_def del: rx_ends.simps)
next
  case False
  then show ?thesis by (subst findall.simps) simp
qed

lemma findall_word_runs: "findall (Plus (Cls is_word)) s = word_runs s"
  by (induction s rule: word_runs.induct) (simp_all add: findall_plus_Nil findall_plus_Cons)

lemma tokenize_word_runs: "tokenize t = word_runs (lower (str_or t []))"
  by (simp add: tokenize_def findall_word_runs)

lemma overlap_score_word_runs:
  "overlap_score query doc
     = card (set (word_runs (lower (str_or query []))) \<inter> set (word_runs (lower doc)))"
  by (simp add: overlap_score_def tokenize_word_runs)

lemma map_slice_to:
  "map f (slice_to xs k) = slice_to (map f xs) k"
  by (simp add: slice_to_def take_map)

lemma slice_to_negative:
  "k < 0 \<Longrightarrow> slice_to xs k = take (length xs - nat (- k)) xs"
proof -
  assume "k < 0"
  then have "nat (int (length xs) + k) = length xs - nat (- k)" by arith
  with \<open>k < 0\<close> show ?thesis by (simp add: slice_to_def)
qed

lemma map_kb_candidates:
  "map to_match (kb_candidates (set (tokenize query)) files) = kb_hits query files"
  by (induction files)
     (auto simp: kb_candidates_def kb_hits_def overlap_score_def to_match_def Let_def
           split: option.splits)

lemma map_insort_key:
  "map g (insort_key (\<lambda>a. f (g a)) x xs) = insort_key f (g x) (map g xs)"
  by (induction xs) auto

lemma map_sort_key: "map g (sort_key (\<lambda>a. f (g a)) xs) = sort_key f (map g xs)"
  by (induction xs) (auto simp: map_insort_key)

lemma ranked_desc:
  "sorted_wrt (\<lambda>a b. kb_score b \<le> kb_score a) (sort_key (\<lambda>m. - int (kb_score m)) hits)"
proof -
  have "sorted (map (\<lambda>m. - int (kb_score m)) (sort_key (\<lambda>m. - int (kb_score m)) hits))"
    by (rule sorted_sort_key)
  then show ?thesis by (simp add: sorted_map)
qed

lemma ranked_stable:
  "filter (\<lambda>m. kb_score m = n) (sort_key (\<lambda>m. - int (kb_score m)) hits)
     = filter (\<lambda>m. kb_score m = n) hits"
proof -
  show ?thesis
    using sort_key_stable [of "\<lambda>m. - int (kb_score m)" "- int n" hits] by simp
qed

text \<open>
  Claim C7, amended.  The tokens of a text are the maximal runs of word characters of
  the lower-cased text, and the score of a document is the size of the intersection of
  the token sets of query and document.  \<open>retrieve_relevant_kb\<close> returns the empty
  list when the query has no token or the knowledge base directory does not exist.
  Otherwise it returns a slice of a ranking of the hits, the readable documents whose
  score is positive: the ranking is sorted by descending score, and the documents of
  equal score stand in it in the order of their enumeration.  For \<open>top_k\<close> not negative
  the slice is the first \<open>top_k\<close> entries; for a negative \<open>top_k\<close> it is the ranking
  without its last \<open>- top_k\<close> entries.
\<close>

theorem retrieve_ranking:
  "tokenize query = word_runs (lower (str_or query []))
   \<and> (\<forall>doc. overlap_score query doc
          = card (set (word_runs (lower (str_or query []))) \<inter> set (word_runs (lower doc))))
   \<and> (set (tokenize query) = {} \<or> kb_dir ev = None \<longrightarrow> retrieve_relevant_kb ev query top_k = [])
   \<and> (set (tokenize query) \<noteq> {} \<and> kb_dir ev = Some files \<longrightarrow>
        (\<exists>ranked. retrieve_relevant_kb ev query top_k
                     = (if 0 \<le> top_k then take (nat top_k) ranked
                        else take (length ranked - nat (- top_k)) ranked)
           \<and> sorted_wrt (\<lambda>a b. kb_score b \<le> kb_score a) ranked
           \<and> (\<forall>n. filter (\<lambda>m. kb_score m = n) ranked
                    = filter (\<lambda>m. kb_score m = n) (kb_hits query files))))"
proof (intro conjI impI allI)
  show "tokenize query = word_runs (lower (str_or query []))"
    by (rule tokenize_word_runs)
next
  fix doc
  show "overlap_score query doc
          = card (set (word_runs (lower (str_or query []))) \<inter> set (word_runs (lower doc)))"
    by (rule overlap_score_word_runs)
next
  assume "set (tokenize query) = {} \<or> kb_dir ev = None"
  then show "retrieve_relevant_kb ev query top_k = []"
    by (auto simp: retrieve_relevant_kb_def Let_def split: option.splits)
next
  assume a: "set (tokenize query) \<noteq> {} \<and> kb_dir ev = Some files"
  let ?ranked = "sort_key (\<lambda>m. - int (kb_score m)) (kb_hits query files)"
  have "(\<lambda>c. - int (fst c)) = (\<lambda>c. - int (kb_score (to_match c)))"
    by (auto simp: to_match_def)
  then have r: "map to_match (sort_key (\<lambda>c. - int (fst c)) (kb_candidates (set (tokenize query)) files))
               = ?ranked"
    using map_sort_key [of to_match "\<lambda>m. - int (kb_score m)"
                           "kb_candidates (set (tokenize query)) files"]
    by (simp add: map_kb_candidates)
  from a have "retrieve_relevant_kb ev query top_k
                 = map to_match (slice_to (sort_key (\<lambda>c. - int (fst c))
                                    (kb_candidates (set (tokenize query)) files)) top_k)"
    by (simp add: retrieve_relevant_kb_def Let_def)
  also have "\<dots> = slice_to ?ranked top_k"
    using r by (simp add: map_slice_to)
  also have "\<dots> = (if 0 \<le> top_k then take (nat top_k) ?ranked
                    else take (length ?ranked - nat (- top_k)) ?ranked)"
    by (simp add: slice_to_negative) (simp add: slice_to_def)
  finally show "\<exists>ranked. retrieve_relevant_kb ev query top_k
                     = (if 0 \<le> top_k then take (nat top_k) ranked
                        else take (length ranked - nat (- top_k)) ranked)
           \<and> sorted_wrt (\<lambda>a b. kb_score b \<le> kb_score a) ranked
           \<and> (\<forall>n. filter (\<lambda>m. kb_score m = n) ranked
                    = filter (\<lambda>m. kb_score m = n) (kb_hits query files))"
    using ranked_desc ranked_stable by blast
qed

theorem retrieve_ranking_witness:
  "tokenize (PyStr ''Please RESET my password'') = [''please'', ''reset'', ''my'', ''password'']
   \<and> retrieve_relevant_kb (offline_env []) (PyStr ''Please RESET my password'') 3 = []
   \<and> set (tokenize (PyStr ''Please RESET my password'')) \<noteq> {}
   \<and> kb_dir (kb_env [(''a.txt'', Some ''Billing: refunds take 5 days''), (''b.txt'', None),
              (''c.txt'', Some ''To reset your password open Settings''),
              (''d.txt'', Some ''Password rules. Reset link. Please!''),
              (''e.txt'', Some ''Reset; my PASSWORD.'')]) = Some [(''a.txt'', Some ''Billing: refunds take 5 days''), (''b.txt'', None),
              (''c.txt'', Some ''To reset your password open Settings''),
              (''d.txt'', Some ''Password rules. Reset link. Please!''),
              (''e.txt'', Some ''Reset; my PASSWORD.'')]
   \<and> retrieve_relevant_kb (kb_env [(''a.txt'', Some ''Billing: refunds take 5 days''), (''b.txt'', None),
              (''c.txt'', Some ''To reset your password open Settings''),
              (''d.txt'', Some ''Password rules. Reset link. Please!''),
              (''e.txt'', Some ''Reset; my PASSWORD.'')]) (PyStr ''Please RESET my password'') 3
     = [\<lparr>kb_score = 3, kb_text = ''Password rules. Reset link. Please!'', kb_source = ''d.txt''\<rparr>,
        \<lparr>kb_score = 3, kb_text = ''Reset; my PASSWORD.'', kb_source = ''e.txt''\<rparr>,
        \<lparr>kb_score = 2, kb_text = ''To reset your password open Settings'', kb_source = ''c.txt''\<rparr>]
   \<and> (\<exists>ranked.
         retrieve_relevant_kb (kb_env [(''a.txt'', Some ''Billing: refunds take 5 days''), (''b.txt'', None),
              (''c.txt'', Some ''To reset your password open Settings''),
              (''d.txt'', Some ''Password rules. Reset link. Please!''),
              (''e.txt'', Some ''Reset; my PASSWORD.'')]) (PyStr ''Please RESET my password'') 3 = take 3 ranked
         \<and> sorted_wrt (\<lambda>a b. kb_score b \<le> kb_score a) ranked
         \<and> (\<forall>n. filter (\<lambda>m. kb_score m = n) ranked
                  = filter (\<lambda>m. kb_score m = n)
                      (kb_hits (PyStr ''Please RESET my password'') [(''a.txt'', Some ''Billing: refunds take 5 days''), (''b.txt'', None),
              (''c.txt'', Some ''To reset your password open Settings''),
              (''d.txt'', Some ''Password rules. Reset link. Please!''),
              (''e.txt'', Some ''Reset; my PASSWORD.'')])))"
proof -
  let ?q = "PyStr ''Please RESET my password''"
  let ?files = "[(''a.txt'', Some ''Billing: refunds take 5 days''), (''b.txt'', None),
              (''c.txt'', Some ''To reset your password open Settings''),
              (''d.txt'', Some ''Password rules. Reset link. Please!''),
              (''e.txt'', Some ''Reset; my PASSWORD.'')]"
  have runs: "word_runs ''please reset my password'' = [''please'', ''reset'', ''my'', ''password'']"
    by code_simp
  have low: "lower ''Please RESET my password'' = ''please reset my password''"
    by code_simp
  note T0 = retrieve_ranking [where query = ?q and ev = "offline_env []" and top_k = 3]
  note T = retrieve_ranking [where query = ?q and ev = "kb_env ?files" and files = ?files and top_k = 3]
  have q: "str_or ?q [] = ''Please RESET my password''"
    by code_simp
  from T have "tokenize ?q = word_runs (lower (str_or ?q []))"
    by (rule conjunct1)
  then have tok: "tokenize ?q = [''please'', ''reset'', ''my'', ''password'']"
    by (simp only: q low runs)
  have nodir: "kb_dir (offline_env []) = None"
    by (simp add: offline_env_def)
  have dir: "kb_dir (kb_env ?files) = Some ?files"
    by (simp add: kb_env_def offline_env_def)
  have val: "retrieve_relevant_kb (kb_env ?files) ?q 3
     = [\<lparr>kb_score = 3, kb_text = ''Password rules. Reset link. Please!'', kb_source = ''d.txt''\<rparr>,
        \<lparr>kb_score = 3, kb_text = ''Reset; my PASSWORD.'', kb_source = ''e.txt''\<rparr>,
        \<lparr>kb_score = 2, kb_text = ''To reset your password open Settings'', kb_source = ''c.txt''\<rparr>]"
    by code_simp
  from T0 nodir have empty: "retrieve_relevant_kb (offline_env []) ?q 3 = []"
    by (simp del: word_runs.simps)
  from T dir tok have ex: "\<exists>ranked.
         retrieve_relevant_kb (kb_env ?files) ?q 3 = take 3 ranked
         \<and> sorted_wrt (\<lambda>a b. kb_score b \<le> kb_score a) ranked
         \<and> (\<forall>n. filter (\<lambda>m. kb_score m = n) ranked
                  = filter (\<lambda>m. kb_score m = n) (kb_hits ?q ?files))"
    by (simp del: word_runs.simps)
  from tok empty dir val ex show ?thesis by simp
qed

text \<open>
  Claim C7, as stated, fails for a negative \<open>top_k\<close>: the slice \<open>candidates[:top_k]\<close>
  then counts from the end, and with three hits and \<open>top_k = -1\<close> two matches are
  returned.
\<close>

theorem retrieve_negative_top_k_counterexample:
  "retrieve_relevant_kb (kb_env [(''a.txt'', Some ''Billing: refunds take 5 days''), (''b.txt'', None),
              (''c.txt'', Some ''To reset your password open Settings''),
              (''d.txt'', Some ''Password rules. Reset link. Please!''),
              (''e.txt'', Some ''Reset; my PASSWORD.'')]) (PyStr ''Please RESET my password'') (- 1)
   = [\<lparr>kb_score = 3, kb_text = ''Password rules. Reset link. Please!'', kb_source = ''d.txt''\<rparr>,
      \<lparr>kb_score = 3, kb_text = ''Reset; my PASSWORD.'', kb_source = ''e.txt''\<rparr>]
   \<and> \<not> int (length (retrieve_relevant_kb (kb_env [(''a.txt'', Some ''Billing: refunds take 5 days''), (''b.txt'', None),
              (''c.txt'', Some ''To reset your password open Settings''),
              (''d.txt'', Some ''Password rules. Reset link. Please!''),
              (''e.txt'', Some ''Reset; my PASSWORD.'')]) (PyStr ''Please RESET my password'') (- 1))) \<le> - 1"
  by code_simp

section \<open>Properties of the record store\<close>

lemma unique_conflict_rows_under:
  "unique_conflict r d \<longleftrightarrow> message_id r \<noteq> PyNone \<and> rows_under (message_id r) d \<noteq> []"
  by (auto simp: unique_conflict_def rows_under_def list_ex_iff filter_empty_conv)

lemma filter_update_rows:
  "filter (\<lambda>row. message_id (cols row) = m)
          (map (\<lambda>row. if message_id (cols row) = message_id r then row\<lparr>cols := r\<rparr> else row) rows)
   = (if m = message_id r
      then map (\<lambda>row. row\<lparr>cols := r\<rparr>) (filter (\<lambda>row. message_id (cols row) = m) rows)
      else filter (\<lambda>row. message_id (cols row) = m) rows)"
  by (induction rows) auto

lemma rows_under_upsert_row:
  "rows_under m (upsert_row r d) =
     (if m = message_id r
      then (if unique_conflict r d
            then map (\<lambda>row. row\<lparr>cols := r\<rparr>) (rows_under m d)
            else rows_under m d @ [\<lparr> row_id = sqlite_sequence d + 1, cols = r \<rparr>])
      else rows_under m d)"
  by (simp add: rows_under_def upsert_row_def Let_def filter_update_rows)

lemma ids_upsert_row:
  "map (\<lambda>row. message_id (cols row)) (emails (upsert_row r d)) =
     (if unique_conflict r d then map (\<lambda>row. message_id (cols row)) (emails d)
      else map (\<lambda>row. message_id (cols row)) (emails d) @ [message_id r])"
  by (auto simp: upsert_row_def Let_def)

lemma unique_ids_upsert_row:
  assumes "unique_ids d"
  shows "unique_ids (upsert_row r d)"
proof (cases "unique_conflict r d")
  case True
  with assms show ?thesis by (simp add: unique_ids_def ids_upsert_row)
next
  case False
  then have "message_id r = PyNone \<or> message_id r \<notin> set (map (\<lambda>row. message_id (cols row)) (emails d))"
    by (auto simp: unique_conflict_def list_ex_iff)
  with assms False show ?thesis
    by (auto simp: unique_ids_def ids_upsert_row)
qed

lemma distinct_filter_le1:
  assumes "distinct (filter (\<lambda>x. x \<noteq> PyNone) (map f rows))" "m \<noteq> PyNone"
  shows "length (filter (\<lambda>row. f row = m) rows) \<le> 1"
  using assms
proof (induction rows)
  case Nil
  then show ?case by simp
next
  case (Cons a rows)
  show ?case
  proof (cases "f a = m")
    case True
    with Cons.prems have "m \<notin> set (map f rows)" by auto
    then have "filter (\<lambda>row. f row = m) rows = []" by (auto simp: filter_empty_conv)
    with True show ?thesis by simp
  next
    case False
    with Cons show ?thesis by (auto split: if_splits)
  qed
qed

lemma rows_under_le1:
  assumes "unique_ids d" "m \<noteq> PyNone"
  shows "length (rows_under m d) \<le> 1"
  using assms unfolding unique_ids_def rows_under_def by (rule distinct_filter_le1)

lemma rows_under_after_upsert:
  assumes "unique_ids d" "message_id r \<noteq> PyNone"
  shows "\<exists>row. rows_under (message_id r) (upsert_row r d) = [row] \<and> cols row = r"
proof (cases "unique_conflict r d")
  case True
  then have "rows_under (message_id r) d \<noteq> []" by (simp add: unique_conflict_rows_under)
  moreover have "length (rows_under (message_id r) d) \<le> 1" using assms by (rule rows_under_le1)
  ultimately obtain x where "rows_under (message_id r) d = [x]"
    by (cases "rows_under (message_id r) d") auto
  with True show ?thesis by (simp add: rows_under_upsert_row)
next
  case False
  with assms(2) have "rows_under (message_id r) d = []" by (simp add: unique_conflict_rows_under)
  with False show ?thesis by (simp add: rows_under_upsert_row)
qed

lemma upsert_calls_fold: "upsert_calls batches d = fold upsert_row (concat batches) d"
  by (induction batches arbitrary: d) (auto simp: upsert_calls_def upsert_emails_def)

lemma fold_upsert_unique:
  assumes "unique_ids d"
  shows "unique_ids (fold upsert_row recs d)
         \<and> (\<forall>r \<in> set recs. message_id r \<noteq> PyNone \<longrightarrow>
              (\<exists>row. rows_under (message_id r) (fold upsert_row recs d) = [row]
                     \<and> cols row = last (filter (\<lambda>r'. message_id r' = message_id r) recs)))"
proof (induction recs rule: rev_induct)
  case Nil
  with assms show ?case by simp
next
  case (snoc q qs)
  let ?d = "fold upsert_row qs d"
  from snoc have u: "unique_ids ?d" by simp
  have "\<exists>row. rows_under (message_id r) (upsert_row q ?d) = [row]
             \<and> cols row = last (filter (\<lambda>r'. message_id r' = message_id r) (qs @ [q]))"
    if r: "r \<in> set (qs @ [q])" and nn: "message_id r \<noteq> PyNone" for r
  proof (cases "message_id r = message_id q")
    case True
    with rows_under_after_upsert[OF u, of q] nn show ?thesis by simp
  next
    case False
    with r have "r \<in> set qs" by auto
    with snoc nn False show ?thesis by (simp add: rows_under_upsert_row)
  qed
  with u show ?case by (simp add: unique_ids_upsert_row)
qed

text \<open>
  Claim C2.  The table holds at most one row per message identifier at any time.
  Starting from a table without duplicate identifiers (the empty table of \<open>init_db\<close>
  is one), after any sequence of calls of \<open>upsert_emails\<close> there is still no duplicate,
  and under the identifier of every upserted record there is exactly one row, which
  carries the field values of the latest upserted record with that identifier.  The
  conflict that decides between insert and overwrite is the \<open>UNIQUE\<close> constraint of the
  table itself.
\<close>

theorem upsert_uniqueness:
  assumes "unique_ids d"
  shows "unique_ids (upsert_calls batches d)
         \<and> (\<forall>r \<in> set (concat batches). message_id r \<noteq> PyNone \<longrightarrow>
              (\<exists>row. rows_under (message_id r) (upsert_calls batches d) = [row]
                     \<and> cols row = last (filter (\<lambda>r'. message_id r' = message_id r) (concat batches))))"
  unfolding upsert_calls_fold using assms by (rule fold_upsert_unique)


theorem upsert_uniqueness_witness:
  "unique_ids init_db
   \<and> unique_ids (upsert_calls [[sample_rec ''m1'' ''Urgent'' ''2024-01-01T00:00:00''],
                                [sample_rec ''m2'' ''Urgent'' ''2024-01-02T00:00:00'',
                                 sample_rec ''m1'' ''Not urgent'' ''2024-01-03T00:00:00'']] init_db)
   \<and> (\<exists>row. rows_under (PyStr ''m1'')
               (upsert_calls [[sample_rec ''m1'' ''Urgent'' ''2024-01-01T00:00:00''],
                              [sample_rec ''m2'' ''Urgent'' ''2024-01-02T00:00:00'',
                               sample_rec ''m1'' ''Not urgent'' ''2024-01-03T00:00:00'']] init_db) = [row]
            \<and> cols row = sample_rec ''m1'' ''Not urgent'' ''2024-01-03T00:00:00'')"
proof -
  have u: "unique_ids init_db" by (simp add: unique_ids_def init_db_def)
  have m: "message_id (sample_rec mid pri ts) = PyStr mid" for mid pri ts
    by (simp add: sample_rec_def)
  show ?thesis
    using upsert_uniqueness [OF u,
            of "[[sample_rec ''m1'' ''Urgent'' ''2024-01-01T00:00:00''],
                 [sample_rec ''m2'' ''Urgent'' ''2024-01-02T00:00:00'',
                  sample_rec ''m1'' ''Not urgent'' ''2024-01-03T00:00:00'']]"] u
    by (simp add: m)
qed

lemma mid_overwritten: "message_id (cols (overwritten recs row)) = message_id (cols row)"
proof (cases "filter (\<lambda>r. message_id r = message_id (cols row)) recs = []")
  case True
  then show ?thesis by (simp add: overwritten_def)
next
  case False
  let ?same = "filter (\<lambda>r. message_id r = message_id (cols row)) recs"
  from False have "last ?same \<in> set ?same" by (rule last_in_set)
  then have "message_id (last ?same) = message_id (cols row)" by simp
  with False show ?thesis by (simp add: overwritten_def Let_def)
qed

lemma unique_conflict_ids:
  "unique_conflict r d \<longleftrightarrow>
     message_id r \<noteq> PyNone \<and> message_id r \<in> set (map (\<lambda>row. message_id (cols row)) (emails d))"
proof -
  have "(\<exists>row \<in> set (emails d). message_id (cols row) = message_id r)
          \<longleftrightarrow> message_id r \<in> (\<lambda>row. message_id (cols row)) ` set (emails d)"
    by force
  then show ?thesis by (simp add: unique_conflict_def list_ex_iff)
qed

lemma overwritten_snoc:
  "(if message_id (cols (overwritten qs row)) = message_id q
    then (overwritten qs row)\<lparr>cols := q\<rparr> else overwritten qs row)
   = overwritten (qs @ [q]) row"
proof (cases "message_id q = message_id (cols row)")
  case True
  then have "overwritten (qs @ [q]) row = row\<lparr>cols := q\<rparr>"
    by (simp add: overwritten_def Let_def)
  moreover have "(overwritten qs row)\<lparr>cols := q\<rparr> = row\<lparr>cols := q\<rparr>"
    by (simp add: overwritten_def Let_def)
  ultimately show ?thesis using True by (simp add: mid_overwritten)
next
  case False
  then have "overwritten (qs @ [q]) row = overwritten qs row"
    by (simp add: overwritten_def Let_def)
  with False show ?thesis by (auto simp: mid_overwritten)
qed

lemma fold_upsert_existing:
  assumes "\<forall>q \<in> set qs. unique_conflict q d"
  shows "emails (fold upsert_row qs d) = map (overwritten qs) (emails d)"
  using assms
proof (induction qs rule: rev_induct)
  case Nil
  then show ?case by (simp add: overwritten_def map_idI)
next
  case (snoc q qs)
  let ?d = "fold upsert_row qs d"
  from snoc have IH: "emails ?d = map (overwritten qs) (emails d)" by simp
  have "map (\<lambda>row. message_id (cols row)) (emails ?d) = map (\<lambda>row. message_id (cols row)) (emails d)"
    by (simp add: IH mid_overwritten comp_def)
  with snoc.prems have "unique_conflict q ?d" by (simp add: unique_conflict_ids)
  then have "emails (upsert_row q ?d)
      = map (\<lambda>row. if message_id (cols row) = message_id q then row\<lparr>cols := q\<rparr> else row) (emails ?d)"
    by (simp add: upsert_row_def Let_def)
  also have "\<dots> = map (overwritten (qs @ [q])) (emails d)"
    by (simp add: IH comp_def overwritten_snoc)
  finally show ?case by simp
qed

lemma fold_upsert_latest:
  assumes "\<forall>r \<in> set recs. message_id r \<noteq> PyNone"
  shows "\<forall>r \<in> set recs. unique_conflict r (fold upsert_row recs d)
            \<and> (\<forall>row \<in> set (rows_under (message_id r) (fold upsert_row recs d)).
                  cols row = last (filter (\<lambda>r'. message_id r' = message_id r) recs))"
  using assms
proof (induction recs rule: rev_induct)
  case Nil
  then show ?case by simp
next
  case (snoc q qs)
  let ?d = "fold upsert_row qs d"
  have "unique_conflict r (upsert_row q ?d)
          \<and> (\<forall>row \<in> set (rows_under (message_id r) (upsert_row q ?d)).
                cols row = last (filter (\<lambda>r'. message_id r' = message_id r) (qs @ [q])))"
    if r: "r \<in> set (qs @ [q])" for r
  proof (cases "message_id r = message_id q")
    case True
    from snoc.prems have "message_id q \<noteq> PyNone" by simp
    with True show ?thesis
      by (auto simp: unique_conflict_rows_under rows_under_upsert_row)
  next
    case False
    with r have "r \<in> set qs" by auto
    with snoc False show ?thesis
      by (auto simp: unique_conflict_rows_under rows_under_upsert_row)
  qed
  then show ?case by simp
qed

lemma fold_upsert_idem:
  assumes "\<forall>r \<in> set recs. message_id r \<noteq> PyNone"
  shows "emails (fold upsert_row recs (fold upsert_row recs d)) = emails (fold upsert_row recs d)"
proof -
  let ?d = "fold upsert_row recs d"
  note latest = fold_upsert_latest[OF assms, of d]
  then have "emails (fold upsert_row recs ?d) = map (overwritten recs) (emails ?d)"
    by (intro fold_upsert_existing) simp
  moreover have "overwritten recs row = row" if "row \<in> set (emails ?d)" for row
  proof (cases "filter (\<lambda>r. message_id r = message_id (cols row)) recs = []")
    case True
    then show ?thesis by (simp add: overwritten_def)
  next
    case False
    let ?same = "filter (\<lambda>r. message_id r = message_id (cols row)) recs"
    let ?r0 = "last ?same"
    from False have "?r0 \<in> set ?same" by (rule last_in_set)
    then have r0: "?r0 \<in> set recs" "message_id ?r0 = message_id (cols row)" by simp_all
    with that have "row \<in> set (rows_under (message_id ?r0) ?d)" by (simp add: rows_under_def)
    with latest r0 have "cols row = last (filter (\<lambda>r'. message_id r' = message_id ?r0) recs)"
      by blast
    with r0 have "cols row = ?r0" by simp
    with False show ?thesis by (simp add: overwritten_def Let_def)
  qed
  ultimately show ?thesis by (simp add: map_idI)
qed

lemma upsert_emails_idem:
  assumes "\<forall>r \<in> set recs. message_id r \<noteq> PyNone"
  shows "emails (upsert_emails recs (upsert_emails recs d)) = emails (upsert_emails recs d)"
  using fold_upsert_idem[OF assms] by (simp add: upsert_emails_def)

section \<open>Properties of the normalization\<close>

lemma read_show_nat: "foldl (\<lambda>a c. 10 * a + ((of_char c :: nat) - 48)) 0 (show_nat n) = n"
proof (induction n rule: show_nat.induct)
  case (1 n)
  show ?case
  proof (cases "n < 10")
    case True
    then show ?thesis by (subst show_nat.simps) simp
  next
    case False
    with 1 have IH: "foldl (\<lambda>a c. 10 * a + ((of_char c :: nat) - 48)) 0 (show_nat (n div 10)) = n div 10"
      by simp
    have "n mod 10 < 10" by simp
    then have "(of_char (char_of (48 + n mod 10)) :: nat) = 48 + n mod 10"
      by simp
    with False IH show ?thesis by (subst show_nat.simps) simp
  qed
qed

lemma show_nat_inj: "show_nat a = show_nat b \<Longrightarrow> a = b"
  by (metis read_show_nat)

lemma show_nat_digits: "c \<in> set (show_nat n) \<Longrightarrow> is_digit c"
proof (induction n rule: show_nat.induct)
  case (1 n)
  have d: "is_digit (char_of (48 + k))" if "k < 10" for k :: nat
    using that by (simp add: is_digit_def)
  show ?case
  proof (cases "n < 10")
    case True
    with 1(2) show ?thesis by (subst (asm) show_nat.simps) (auto simp: d)
  next
    case False
    with 1 show ?thesis by (subst (asm) (2) show_nat.simps) (auto simp: d)
  qed
qed

lemma show_nat_not_minus: "show_nat n \<noteq> CHR ''-'' # s"
proof
  assume "show_nat n = CHR ''-'' # s"
  then have "CHR ''-'' \<in> set (show_nat n)" by simp
  then have "is_digit (CHR ''-'')" by (rule show_nat_digits)
  then show False by (simp add: is_digit_def)
qed

lemma show_int_inj: "show_int a = show_int b \<longleftrightarrow> a = b"
proof
  assume eq: "show_int a = show_int b"
  show "a = b"
  proof (cases "a < 0"; cases "b < 0")
    assume "a < 0" "b < 0"
    with eq have "nat (- a) = nat (- b)" by (auto simp: show_int_def dest: show_nat_inj)
    with \<open>a < 0\<close> \<open>b < 0\<close> show ?thesis by simp
  next
    assume "a < 0" "\<not> b < 0"
    with eq have "show_nat (nat b) = CHR ''-'' # show_nat (nat (- a))" by (simp add: show_int_def)
    then show ?thesis by (simp add: show_nat_not_minus)
  next
    assume "\<not> a < 0" "b < 0"
    with eq have "show_nat (nat a) = CHR ''-'' # show_nat (nat (- b))" by (simp add: show_int_def)
    then show ?thesis by (simp add: show_nat_not_minus)
  next
    assume "\<not> a < 0" "\<not> b < 0"
    with eq have "nat a = nat b" by (auto simp: show_int_def dest: show_nat_inj)
    with \<open>\<not> a < 0\<close> \<open>\<not> b < 0\<close> show ?thesis by simp
  qed
qed simp

text \<open>
  Claim C4.  The identifier derived for a raw email without message identifier ends
  in the decimal rendering of \<open>hash(body)\<close>, the builtin hash of the running process.
  Two normalizations of the same raw email therefore give the same identifier exactly
  when the two processes hash the body to the same number; Python salts the hash of a
  \<open>str\<close> afresh for every process (\<open>PYTHONHASHSEED\<close>), so across program executions
  the identifier changes.
\<close>

theorem derived_id_follows_hash:
  assumes "\<not> truthy (dict_get e ''message_id'')"
  shows "message_id (normalize_raw ev1 i e) = message_id (normalize_raw ev2 j e)
         \<longleftrightarrow> py_hash ev1 (dict_get_default e ''body'' (PyStr []))
             = py_hash ev2 (dict_get_default e ''body'' (PyStr []))"
  using assms by (simp add: normalize_raw_def py_or_def derived_message_id_def show_int_inj)



theorem derived_id_follows_hash_witness:
  "\<not> truthy (dict_get (sample_raw [(''sender'', PyStr ''a@example.com''), (''subject'', PyStr ''Help''),
                                     (''body'', PyStr ''My app is down'')]) ''message_id'')
   \<and> message_id (normalize_raw (offline_env ''2024-05-01T10:00:00'') 0
        (sample_raw [(''sender'', PyStr ''a@example.com''), (''subject'', PyStr ''Help''),
                     (''body'', PyStr ''My app is down'')]))
     \<noteq> message_id (normalize_raw ((offline_env ''2024-05-01T10:00:00'')\<lparr>py_hash := (\<lambda>v. 1)\<rparr>) 0
        (sample_raw [(''sender'', PyStr ''a@example.com''), (''subject'', PyStr ''Help''),
                     (''body'', PyStr ''My app is down'')]))"
proof -
  have f: "\<not> truthy (dict_get (sample_raw [(''sender'', PyStr ''a@example.com''),
              (''subject'', PyStr ''Help''), (''body'', PyStr ''My app is down'')]) ''message_id'')"
    by (simp add: dict_get_def sample_raw_def)
  show ?thesis
    using derived_id_follows_hash [OF f, of "offline_env ''2024-05-01T10:00:00''" 0
            "(offline_env ''2024-05-01T10:00:00'')\<lparr>py_hash := (\<lambda>v. 1)\<rparr>" 0] f
    by (simp add: offline_env_def)
qed

lemma process_email_fields:
  assumes "process_email ev i e = Inr r"
  shows "status r = PyStr ''pending''
         \<and> message_id r = message_id (normalize_raw ev i e)
         \<and> sender r = sender (normalize_raw ev i e)
         \<and> subject r = subject (normalize_raw ev i e)
         \<and> body r = body (normalize_raw ev i e)
         \<and> received_at r = received_at (normalize_raw ev i e)"
  using assms by (auto simp: process_email_def Let_def split: sum.splits)

lemma show_int_0: "show_int 0 = ''0''"
  by code_simp

text \<open>
  Claim C10, as stated, fails on a message identifier that is present and not
  \<open>None\<close> but the empty string: the \<open>or\<close> of the program treats it as missing and
  derives an identifier.
\<close>

theorem normalize_empty_id_counterexample:
  "sample_raw [(''message_id'', PyStr []), (''sender'', PyStr ''a@example.com''),
               (''subject'', PyStr ''Help''), (''body'', PyStr ''hello'')] ''message_id'' = Some (PyStr [])
   \<and> message_id (normalize_raw (offline_env ''2024-05-01T10:00:00'') 0
         (sample_raw [(''message_id'', PyStr []), (''sender'', PyStr ''a@example.com''),
                      (''subject'', PyStr ''Help''), (''body'', PyStr ''hello'')]))
       = PyStr ''a@example.com_Help_0''"
  by (simp add: sample_raw_def normalize_raw_def dict_get_def dict_get_default_def py_or_def
        derived_message_id_def offline_env_def show_int_0)

text \<open>
  Claim C10, amended.  Normalization only fills in defaults.  A message identifier
  that is a non-empty string is kept; a present sender is kept, whatever it is; a
  subject or body that is a string is kept.  A missing sender, and a missing or
  \<open>None\<close> subject or body, becomes the empty string.  A received timestamp that is a
  non-empty string is kept; one that is missing, \<open>None\<close> or empty becomes the reading
  of the clock.  A message identifier that is missing, \<open>None\<close> or empty is derived.
  Every assembled record has the status \<open>pending\<close> and carries the five normalized
  fields.
\<close>

theorem normalize_raw_defaults:
  "(\<forall>m. e ''message_id'' = Some (PyStr m) \<and> m \<noteq> [] \<longrightarrow> message_id (normalize_raw ev i e) = PyStr m)
   \<and> (\<forall>v. e ''sender'' = Some v \<longrightarrow> sender (normalize_raw ev i e) = v)
   \<and> (\<forall>s. e ''subject'' = Some (PyStr s) \<longrightarrow> subject (normalize_raw ev i e) = PyStr s)
   \<and> (\<forall>b. e ''body'' = Some (PyStr b) \<longrightarrow> body (normalize_raw ev i e) = PyStr b)
   \<and> (e ''sender'' = None \<longrightarrow> sender (normalize_raw ev i e) = PyStr [])
   \<and> (e ''subject'' = None \<or> e ''subject'' = Some PyNone \<longrightarrow> subject (normalize_raw ev i e) = PyStr [])
   \<and> (e ''body'' = None \<or> e ''body'' = Some PyNone \<longrightarrow> body (normalize_raw ev i e) = PyStr [])
   \<and> (truthy (dict_get e ''received_at'') \<longrightarrow>
        received_at (normalize_raw ev i e) = dict_get e ''received_at'')
   \<and> (\<not> truthy (dict_get e ''received_at'') \<longrightarrow>
        received_at (normalize_raw ev i e) = PyStr (utcnow_iso ev i))
   \<and> (\<not> truthy (dict_get e ''message_id'') \<longrightarrow>
        message_id (normalize_raw ev i e) = PyStr (derived_message_id ev e))
   \<and> (\<forall>r. process_email ev i e = Inr r \<longrightarrow>
        status r = PyStr ''pending''
        \<and> message_id r = message_id (normalize_raw ev i e)
        \<and> sender r = sender (normalize_raw ev i e)
        \<and> subject r = subject (normalize_raw ev i e)
        \<and> body r = body (normalize_raw ev i e)
        \<and> received_at r = received_at (normalize_raw ev i e))"
proof -
  have "\<forall>r. process_email ev i e = Inr r \<longrightarrow>
        status r = PyStr ''pending''
        \<and> message_id r = message_id (normalize_raw ev i e)
        \<and> sender r = sender (normalize_raw ev i e)
        \<and> subject r = subject (normalize_raw ev i e)
        \<and> body r = body (normalize_raw ev i e)
        \<and> received_at r = received_at (normalize_raw ev i e)"
    using process_email_fields by blast
  then show ?thesis
    by (simp add: normalize_raw_def dict_get_def dict_get_default_def py_or_def)
qed


lemma generate_response_fallback:
  assumes "\<not> truthy (GEMINI_API_KEY ev) \<or> \<not> truthy (gemini ev (response_prompt (subject e) (body e)
              (retrieve_relevant_kb ev (body e) 3)) 400)"
  shows "generate_response ev e an =
           (case sender e of PyNone \<Rightarrow> Inl AttributeError | PyStr s \<Rightarrow> Inr (fallback_draft s an))"
  using assms by (auto simp: generate_response_def Let_def split: pyval.splits)

theorem normalize_raw_defaults_witness:
  "message_id (normalize_raw (offline_env ''2024-05-01T10:00:00'') 0
      (sample_raw [(''message_id'', PyStr ''m1''), (''sender'', PyStr ''Ann <ann@example.com>''),
                   (''subject'', PyStr ''Help''), (''body'', PyStr ''I cannot log in.''),
                   (''received_at'', PyStr ''2024-04-30T08:00:00'')])) = PyStr ''m1''
   \<and> sender (normalize_raw (offline_env ''2024-05-01T10:00:00'') 0
      (sample_raw [(''message_id'', PyStr ''m1''), (''sender'', PyStr ''Ann <ann@example.com>''),
                   (''subject'', PyStr ''Help''), (''body'', PyStr ''I cannot log in.''),
                   (''received_at'', PyStr ''2024-04-30T08:00:00'')])) = PyStr ''Ann <ann@example.com>''
   \<and> subject (normalize_raw (offline_env ''2024-05-01T10:00:00'') 0
      (sample_raw [(''message_id'', PyStr ''m1''), (''sender'', PyStr ''Ann <ann@example.com>''),
                   (''subject'', PyStr ''Help''), (''body'', PyStr ''I cannot log in.''),
                   (''received_at'', PyStr ''2024-04-30T08:00:00'')])) = PyStr ''Help''
   \<and> body (normalize_raw (offline_env ''2024-05-01T10:00:00'') 0
      (sample_raw [(''message_id'', PyStr ''m1''), (''sender'', PyStr ''Ann <ann@example.com>''),
                   (''subject'', PyStr ''Help''), (''body'', PyStr ''I cannot log in.''),
                   (''received_at'', PyStr ''2024-04-30T08:00:00'')])) = PyStr ''I cannot log in.''
   \<and> received_at (normalize_raw (offline_env ''2024-05-01T10:00:00'') 0
      (sample_raw [(''message_id'', PyStr ''m1''), (''sender'', PyStr ''Ann <ann@example.com>''),
                   (''subject'', PyStr ''Help''), (''body'', PyStr ''I cannot log in.''),
                   (''received_at'', PyStr ''2024-04-30T08:00:00'')])) = PyStr ''2024-04-30T08:00:00''
   \<and> (\<exists>r. process_email (offline_env ''2024-05-01T10:00:00'') 0
      (sample_raw [(''message_id'', PyStr ''m1''), (''sender'', PyStr ''Ann <ann@example.com>''),
                   (''subject'', PyStr ''Help''), (''body'', PyStr ''I cannot log in.''),
                   (''received_at'', PyStr ''2024-04-30T08:00:00'')]) = Inr r
          \<and> status r = PyStr ''pending'' \<and> message_id r = PyStr ''m1'')
   \<and> sender (normalize_raw (offline_env ''2024-05-01T10:00:00'') 0 (sample_raw [])) = PyStr []
   \<and> subject (normalize_raw (offline_env ''2024-05-01T10:00:00'') 0 (sample_raw [(''subject'', PyNone)]))
       = PyStr []
   \<and> body (normalize_raw (offline_env ''2024-05-01T10:00:00'') 0 (sample_raw [])) = PyStr []
   \<and> received_at (normalize_raw (offline_env ''2024-05-01T10:00:00'') 0 (sample_raw []))
       = PyStr ''2024-05-01T10:00:00''
   \<and> message_id (normalize_raw (offline_env ''2024-05-01T10:00:00'') 0 (sample_raw []))
       = PyStr (derived_message_id (offline_env ''2024-05-01T10:00:00'') (sample_raw []))"
proof -
  let ?ev = "offline_env ''2024-05-01T10:00:00''"
  let ?full = "sample_raw [(''message_id'', PyStr ''m1''), (''sender'', PyStr ''Ann <ann@example.com>''),
                   (''subject'', PyStr ''Help''), (''body'', PyStr ''I cannot log in.''),
                   (''received_at'', PyStr ''2024-04-30T08:00:00'')]"
  have full: "?full ''message_id'' = Some (PyStr ''m1'')"
             "?full ''sender'' = Some (PyStr ''Ann <ann@example.com>'')"
             "?full ''subject'' = Some (PyStr ''Help'')"
             "?full ''body'' = Some (PyStr ''I cannot log in.'')"
             "dict_get ?full ''received_at'' = PyStr ''2024-04-30T08:00:00''"
    by (simp_all add: sample_raw_def dict_get_def)
  have none: "sample_raw [] k = None" "sample_raw [(''subject'', PyNone)] ''subject'' = Some PyNone"
             "dict_get (sample_raw []) k = PyNone" for k
    by (simp_all add: sample_raw_def dict_get_def)
  have now: "utcnow_iso ?ev 0 = ''2024-05-01T10:00:00''" by (simp add: offline_env_def)
  note F = normalize_raw_defaults [of ?full ?ev 0]
  note E = normalize_raw_defaults [of "sample_raw []" ?ev 0]
  note S = normalize_raw_defaults [of "sample_raw [(''subject'', PyNone)]" ?ev 0]
  have f1: "message_id (normalize_raw ?ev 0 ?full) = PyStr ''m1''"
    using F full(1) by simp
  have f2: "sender (normalize_raw ?ev 0 ?full) = PyStr ''Ann <ann@example.com>''"
    using F full(2) by simp
  have f3: "subject (normalize_raw ?ev 0 ?full) = PyStr ''Help''"
    using F full(3) by simp
  have f4: "body (normalize_raw ?ev 0 ?full) = PyStr ''I cannot log in.''"
    using F full(4) by simp
  have f5: "received_at (normalize_raw ?ev 0 ?full) = PyStr ''2024-04-30T08:00:00''"
    using F full(5) by simp
  have "\<not> truthy (GEMINI_API_KEY ?ev)" by (simp add: offline_env_def)
  then have "generate_response ?ev (normalize_raw ?ev 0 ?full) an
               = Inr (fallback_draft ''Ann <ann@example.com>'' an)" for an
    by (simp add: generate_response_fallback f2)
  then obtain r where r: "process_email ?ev 0 ?full = Inr r"
    by (simp add: process_email_def Let_def)
  with F have f6: "status r = PyStr ''pending'' \<and> message_id r = PyStr ''m1''"
    by (simp add: f1)
  have e1: "sender (normalize_raw ?ev 0 (sample_raw [])) = PyStr []"
    using E none(1) by simp
  have e2: "subject (normalize_raw ?ev 0 (sample_raw [(''subject'', PyNone)])) = PyStr []"
    using S none(2) by simp
  have e3: "body (normalize_raw ?ev 0 (sample_raw [])) = PyStr []"
    using E none(1) by simp
  have e4: "received_at (normalize_raw ?ev 0 (sample_raw [])) = PyStr ''2024-05-01T10:00:00''"
    using E none(3) now by simp
  have e5: "message_id (normalize_raw ?ev 0 (sample_raw []))
              = PyStr (derived_message_id ?ev (sample_raw []))"
    using E none(3) by simp
  from r f6 have "\<exists>r. process_email ?ev 0 ?full = Inr r
                     \<and> status r = PyStr ''pending'' \<and> message_id r = PyStr ''m1''"
    by blast
  with f1 f2 f3 f4 f5 e1 e2 e3 e4 e5 show ?thesis by (intro conjI)
qed

section \<open>Properties of the fallback from the external service\<close>

lemma valid_heuristic_result: "valid_analysis (heuristic_result s b)"
  by (simp add: valid_analysis_def heuristic_result_def sentiment_of_def priority_of_def Let_def)

lemma analyze_email_heuristic:
  assumes "\<not> truthy (GEMINI_API_KEY ev)
           \<or> \<not> truthy (gemini ev (nlp_prompt (str_or (subject e) []) (str_or (body e) [])) 250)
           \<or> (\<exists>raw. gemini ev (nlp_prompt (str_or (subject e) []) (str_or (body e) [])) 250 = PyStr raw
                    \<and> json_loads ev (json_substring raw) = None)"
  shows "analyze_email ev e = heuristic_result (str_or (subject e) []) (str_or (body e) [])"
  using assms by (auto simp: analyze_email_def Let_def split: pyval.splits option.splits)

lemma fallback_draft_nonempty: "fallback_draft s an \<noteq> []"
  by (simp add: fallback_draft_def Let_def)

text \<open>
  Claim C5, amended.  When no credential is configured or the call of the service for
  the analysis fails (it returns no text), \<open>analyze_email\<close> returns the heuristic result
  unchanged.  When the service answers the analysis prompt with a text whose JSON part
  the parser rejects, \<open>analyze_email\<close> returns the heuristic result unchanged as well.
  When no credential is configured or the call of the service for the draft fails,
  \<open>generate_response\<close> returns, for an email whose sender is a string, the template
  draft, which is not empty.  \<open>generate_response\<close> does not parse the answer of the
  service: it returns every non-empty answer trimmed.  The heuristic result is valid.
  No failure of the service leaves either function as an error: the only error of
  \<open>generate_response\<close> is that of a sender that is \<open>None\<close>.
\<close>

theorem oracle_degradation:
  "(\<not> truthy (GEMINI_API_KEY ev)
      \<or> \<not> truthy (gemini ev (nlp_prompt (str_or (subject e) []) (str_or (body e) [])) 250) \<longrightarrow>
      analyze_email ev e = heuristic_result (str_or (subject e) []) (str_or (body e) []))
   \<and> (\<forall>raw. gemini ev (nlp_prompt (str_or (subject e) []) (str_or (body e) [])) 250 = PyStr raw
          \<and> json_loads ev (json_substring raw) = None \<longrightarrow>
        analyze_email ev e = heuristic_result (str_or (subject e) []) (str_or (body e) []))
   \<and> (\<not> truthy (GEMINI_API_KEY ev)
      \<or> \<not> truthy (gemini ev (response_prompt (subject e) (body e) (retrieve_relevant_kb ev (body e) 3)) 400) \<longrightarrow>
      (\<forall>s. sender e = PyStr s \<longrightarrow>
            generate_response ev e an = Inr (fallback_draft s an) \<and> fallback_draft s an \<noteq> []))
   \<and> (\<forall>out. truthy (GEMINI_API_KEY ev) \<and> out \<noteq> []
          \<and> gemini ev (response_prompt (subject e) (body e) (retrieve_relevant_kb ev (body e) 3)) 400
              = PyStr out \<longrightarrow>
        generate_response ev e an = Inr (strip out))
   \<and> valid_analysis (heuristic_result (str_or (subject e) []) (str_or (body e) []))
   \<and> (\<forall>err. generate_response ev e an = Inl err \<longrightarrow> sender e = PyNone)"
proof (intro conjI impI allI)
  assume "\<not> truthy (GEMINI_API_KEY ev)
          \<or> \<not> truthy (gemini ev (nlp_prompt (str_or (subject e) []) (str_or (body e) [])) 250)"
  then show "analyze_email ev e = heuristic_result (str_or (subject e) []) (str_or (body e) [])"
    by (intro analyze_email_heuristic) blast
next
  fix raw
  assume "gemini ev (nlp_prompt (str_or (subject e) []) (str_or (body e) [])) 250 = PyStr raw
          \<and> json_loads ev (json_substring raw) = None"
  then show "analyze_email ev e = heuristic_result (str_or (subject e) []) (str_or (body e) [])"
    by (intro analyze_email_heuristic) blast
next
  fix s
  assume a: "\<not> truthy (GEMINI_API_KEY ev)
      \<or> \<not> truthy (gemini ev (response_prompt (subject e) (body e) (retrieve_relevant_kb ev (body e) 3)) 400)"
    and "sender e = PyStr s"
  then show "generate_response ev e an = Inr (fallback_draft s an)"
    by (simp add: generate_response_fallback)
  show "fallback_draft s an \<noteq> []" by (rule fallback_draft_nonempty)
next
  fix out
  assume "truthy (GEMINI_API_KEY ev) \<and> out \<noteq> []
          \<and> gemini ev (response_prompt (subject e) (body e) (retrieve_relevant_kb ev (body e) 3)) 400
              = PyStr out"
  then show "generate_response ev e an = Inr (strip out)"
    by (simp add: generate_response_def Let_def)
next
  show "valid_analysis (heuristic_result (str_or (subject e) []) (str_or (body e) []))"
    by (rule valid_heuristic_result)
next
  fix err assume "generate_response ev e an = Inl err"
  then show "sender e = PyNone"
    by (auto simp: generate_response_def Let_def split: pyval.splits if_splits)
qed

theorem oracle_degradation_witness:
  \<open>analyze_email ((offline_env ''2024-05-01T10:00:00'')\<lparr>GEMINI_API_KEY := PyStr ''key''\<rparr>)
      \<lparr> message_id = PyStr ''m1'', sender = PyStr ''Ann <ann@example.com>'', subject = PyStr ''Help'',
        body = PyStr ''I cannot log in.'', received_at = PyStr ''2024-04-30T08:00:00'' \<rparr>
     = heuristic_result ''Help'' ''I cannot log in.''
   \<and> generate_response ((offline_env ''2024-05-01T10:00:00'')\<lparr>GEMINI_API_KEY := PyStr ''key''\<rparr>)
      \<lparr> message_id = PyStr ''m1'', sender = PyStr ''Ann <ann@example.com>'', subject = PyStr ''Help'',
        body = PyStr ''I cannot log in.'', received_at = PyStr ''2024-04-30T08:00:00'' \<rparr>
      (heuristic_result ''Help'' ''I cannot log in.'')
     = Inr (fallback_draft ''Ann <ann@example.com>'' (heuristic_result ''Help'' ''I cannot log in.''))
   \<and> fallback_draft ''Ann <ann@example.com>'' (heuristic_result ''Help'' ''I cannot log in.'') \<noteq> []
   \<and> valid_analysis (heuristic_result ''Help'' ''I cannot log in.'')
   \<and> generate_response ((offline_env ''2024-05-01T10:00:00'')\<lparr>GEMINI_API_KEY := PyStr ''key''\<rparr>)
      \<lparr> message_id = PyStr ''m1'', sender = PyNone, subject = PyStr ''Help'',
        body = PyStr ''I cannot log in.'', received_at = PyStr ''2024-04-30T08:00:00'' \<rparr>
      (heuristic_result ''Help'' ''I cannot log in.'')
     = Inl AttributeError
   \<and> gemini (answering_env ''Sorry, no JSON today. '') (nlp_prompt ''Help'' ''I cannot log in.'') 250
     = PyStr ''Sorry, no JSON today. ''
   \<and> json_loads (answering_env ''Sorry, no JSON today. '') (json_substring ''Sorry, no JSON today. '') = None
   \<and> analyze_email (answering_env ''Sorry, no JSON today. '')
      \<lparr> message_id = PyStr ''m1'', sender = PyStr ''Ann <ann@example.com>'', subject = PyStr ''Help'',
        body = PyStr ''I cannot log in.'', received_at = PyStr ''2024-04-30T08:00:00'' \<rparr>
     = heuristic_result ''Help'' ''I cannot log in.''
   \<and> gemini (answering_env ''{"priority": "Urgent"'') (nlp_prompt ''Help'' ''I cannot log in.'') 250
     = PyStr ''{"priority": "Urgent"''
   \<and> json_loads (answering_env ''{"priority": "Urgent"'') (json_substring ''{"priority": "Urgent"'') = None
   \<and> analyze_email (answering_env ''{"priority": "Urgent"'')
      \<lparr> message_id = PyStr ''m1'', sender = PyStr ''Ann <ann@example.com>'', subject = PyStr ''Help'',
        body = PyStr ''I cannot log in.'', received_at = PyStr ''2024-04-30T08:00:00'' \<rparr>
     = heuristic_result ''Help'' ''I cannot log in.''
   \<and> generate_response (answering_env ''Sorry, no JSON today. '')
      \<lparr> message_id = PyStr ''m1'', sender = PyStr ''Ann <ann@example.com>'', subject = PyStr ''Help'',
        body = PyStr ''I cannot log in.'', received_at = PyStr ''2024-04-30T08:00:00'' \<rparr>
      (heuristic_result ''Help'' ''I cannot log in.'')
     = Inr ''Sorry, no JSON today.''
   \<and> an_priority (heuristic_result ''Help'' ''I cannot log in.'') = PyStr ''Not urgent''
   \<and> json_loads (answering_env ''Here it is: {"priority": "Urgent"} Bye'')
        (json_substring ''Here it is: {"priority": "Urgent"} Bye'')
     = Some [''priority'' \<mapsto> PyStr ''Urgent'']
   \<and> analyze_email (answering_env ''Here it is: {"priority": "Urgent"} Bye'')
      \<lparr> message_id = PyStr ''m1'', sender = PyStr ''Ann <ann@example.com>'', subject = PyStr ''Help'',
        body = PyStr ''I cannot log in.'', received_at = PyStr ''2024-04-30T08:00:00'' \<rparr>
     = (heuristic_result ''Help'' ''I cannot log in.'')\<lparr>an_priority := PyStr ''Urgent''\<rparr>\<close>
proof -
  let ?ev = "((offline_env ''2024-05-01T10:00:00'')\<lparr>GEMINI_API_KEY := PyStr ''key''\<rparr>)"
  let ?e = "\<lparr> message_id = PyStr ''m1'', sender = PyStr ''Ann <ann@example.com>'', subject = PyStr ''Help'',
        body = PyStr ''I cannot log in.'', received_at = PyStr ''2024-04-30T08:00:00'' \<rparr>"
  let ?an = "heuristic_result ''Help'' ''I cannot log in.''"
  let ?g = "answering_env ''Sorry, no JSON today. ''"
  let ?h = \<open>answering_env ''{"priority": "Urgent"''\<close>
  let ?j = \<open>answering_env ''Here it is: {"priority": "Urgent"} Bye''\<close>
  have fails: "\<not> truthy (gemini ?ev p n)" for p n
    by (simp add: offline_env_def)
  have null: "generate_response ?ev (?e\<lparr>sender := PyNone\<rparr>) ?an = Inl AttributeError"
    using fails by (subst generate_response_fallback) simp_all
  note T = oracle_degradation [where ev = ?ev and e = ?e and an = ?an]
  from T fails have a: "analyze_email ?ev ?e = ?an" by simp
  from T fails have g: "generate_response ?ev ?e ?an = Inr (fallback_draft ''Ann <ann@example.com>'' ?an)"
    and n: "fallback_draft ''Ann <ann@example.com>'' ?an \<noteq> []"
    by simp_all
  from T have v: "valid_analysis ?an" by simp
  have o: "truthy (GEMINI_API_KEY (answering_env x))" "gemini (answering_env x) p k = PyStr x"
          "json_loads (answering_env x) = sample_json_loads" for x p k
    by (simp_all add: answering_env_def offline_env_def)
  have j1: "sample_json_loads (json_substring ''Sorry, no JSON today. '') = None"
    by (simp add: sample_json_loads_def json_substring_def)
  have j2: \<open>sample_json_loads (json_substring ''{"priority": "Urgent"'') = None\<close>
    by (simp add: sample_json_loads_def json_substring_def)
  have j3: \<open>sample_json_loads (json_substring ''Here it is: {"priority": "Urgent"} Bye'')
              = Some [''priority'' \<mapsto> PyStr ''Urgent'']\<close>
    by (simp add: sample_json_loads_def json_substring_def)
  have st: "strip ''Sorry, no JSON today. '' = ''Sorry, no JSON today.''"
    by (simp add: strip_def is_space_def)
  note G = oracle_degradation [where ev = ?g and e = ?e and an = ?an]
  from G o j1 have ga: "analyze_email ?g ?e = ?an" by simp
  from G o have gt: "generate_response ?g ?e ?an = Inr ''Sorry, no JSON today.''"
    by (simp add: st)
  note H = oracle_degradation [where ev = ?h and e = ?e and an = ?an]
  from H o j2 have ha: "analyze_email ?h ?e = ?an" by simp
  have p: "an_priority ?an = PyStr ''Not urgent''"
    by code_simp
  have ja: "analyze_email ?j ?e = ?an\<lparr>an_priority := PyStr ''Urgent''\<rparr>"
    by (simp add: analyze_email_def Let_def o j3 py_or_def dict_get_def)
  from a g n v null o j1 j2 j3 ga gt ha p ja show ?thesis by simp
qed

text \<open>
  Claim C5, as stated, fails for the draft: \<open>generate_response\<close> does not parse the
  answer of the service, it returns any non-empty answer trimmed.  When the service
  answers with a blank, which is no JSON, the analysis falls back to the heuristics
  but the draft is the empty string.
\<close>

theorem oracle_garbled_draft_counterexample:
  "truthy (GEMINI_API_KEY (answering_env '' ''))
   \<and> gemini (answering_env '' '') (nlp_prompt ''Help'' ''I cannot log in.'') 250 = PyStr '' ''
   \<and> json_loads (answering_env '' '') (json_substring '' '') = None
   \<and> analyze_email (answering_env '' '')
        \<lparr> message_id = PyStr ''m1'', sender = PyStr ''Ann <ann@example.com>'', subject = PyStr ''Help'',
        body = PyStr ''I cannot log in.'', received_at = PyStr ''2024-04-30T08:00:00'' \<rparr>
      = heuristic_result ''Help'' ''I cannot log in.''
   \<and> generate_response (answering_env '' '')
        \<lparr> message_id = PyStr ''m1'', sender = PyStr ''Ann <ann@example.com>'', subject = PyStr ''Help'',
        body = PyStr ''I cannot log in.'', received_at = PyStr ''2024-04-30T08:00:00'' \<rparr>
        (heuristic_result ''Help'' ''I cannot log in.'') = Inr []"
  by (simp add: answering_env_def offline_env_def sample_json_loads_def json_substring_def
        analyze_email_def generate_response_def Let_def strip_def is_space_def)

section \<open>Properties of the batch sort\<close>

lemma sort_batch_sorted:
  "sorted_wrt (\<lambda>a b. sort_key_of ev a \<le> sort_key_of ev b) (sort_batch ev rs)"
proof -
  have "sorted (map (sort_key_of ev) (sort_key (sort_key_of ev) rs))" by (rule sorted_sort_key)
  then show ?thesis by (simp add: sort_batch_def sorted_map)
qed

lemma sort_key_of_le:
  "sort_key_of ev a \<le> sort_key_of ev b \<Longrightarrow>
     \<not> (\<not> urgent a \<and> urgent b)
     \<and> (urgent a = urgent b \<longrightarrow>
          (case (parsed_ts ev a, parsed_ts ev b) of
             (Some x, Some y) \<Rightarrow> y \<le> x
           | (Some x, None) \<Rightarrow> 0 \<le> x
           | (None, Some y) \<Rightarrow> y \<le> 0
           | (None, None) \<Rightarrow> True))"
  by (auto simp: sort_key_of_def urgent_def parsed_ts_def Let_def less_eq_prod_def
           split: pyval.splits option.splits if_splits)

text \<open>
  Claim C3, amended.  The batch sort permutes the batch; no record that is not
  Urgent precedes an Urgent one; within a priority tier, of two records with parsed
  timestamps the later one comes first, and a record whose timestamp fails to parse,
  sorting with the key \<open>0\<close>, comes behind every record with a parsed timestamp after
  the epoch and before every record with a parsed timestamp earlier than the epoch.
  A parse failure is a key value, never an error: \<open>sort_key_of\<close> is total.
\<close>

theorem sort_batch_order:
  "mset (sort_batch ev rs) = mset rs
   \<and> sorted_wrt (\<lambda>a b. \<not> (\<not> urgent a \<and> urgent b)) (sort_batch ev rs)
   \<and> sorted_wrt (\<lambda>a b. urgent a = urgent b \<longrightarrow>
          (case (parsed_ts ev a, parsed_ts ev b) of
             (Some x, Some y) \<Rightarrow> y \<le> x
           | (Some x, None) \<Rightarrow> 0 \<le> x
           | (None, Some y) \<Rightarrow> y \<le> 0
           | (None, None) \<Rightarrow> True)) (sort_batch ev rs)"
proof -
  have 1: "mset (sort_batch ev rs) = mset rs" by (simp add: sort_batch_def)
  have 2: "sorted_wrt (\<lambda>a b. \<not> (\<not> urgent a \<and> urgent b)) (sort_batch ev rs)"
    by (rule sorted_wrt_mono_rel[OF _ sort_batch_sorted]) (use sort_key_of_le in blast)
  have 3: "sorted_wrt (\<lambda>a b. urgent a = urgent b \<longrightarrow>
          (case (parsed_ts ev a, parsed_ts ev b) of
             (Some x, Some y) \<Rightarrow> y \<le> x
           | (Some x, None) \<Rightarrow> 0 \<le> x
           | (None, Some y) \<Rightarrow> y \<le> 0
           | (None, None) \<Rightarrow> True)) (sort_batch ev rs)"
    by (rule sorted_wrt_mono_rel[OF _ sort_batch_sorted]) (use sort_key_of_le in blast)
  from 1 2 3 show ?thesis by blast
qed

theorem sort_batch_order_witness:
  "urgent (sample_rec ''new'' ''Urgent'' ''2024-01-01T00:00:00+00:00'')
     = urgent (sample_rec ''bad'' ''Urgent'' ''not-a-date'')
   \<and> mset (sort_batch (offline_env [])
        [sample_rec ''bad'' ''Urgent'' ''not-a-date'',
         sample_rec ''new'' ''Urgent'' ''2024-01-01T00:00:00+00:00''])
     = mset [sample_rec ''bad'' ''Urgent'' ''not-a-date'',
             sample_rec ''new'' ''Urgent'' ''2024-01-01T00:00:00+00:00'']
   \<and> sorted_wrt (\<lambda>a b. \<not> (\<not> urgent a \<and> urgent b))
        (sort_batch (offline_env [])
           [sample_rec ''bad'' ''Urgent'' ''not-a-date'',
            sample_rec ''new'' ''Urgent'' ''2024-01-01T00:00:00+00:00''])
   \<and> sorted_wrt (\<lambda>a b. urgent a = urgent b \<longrightarrow>
          (case (parsed_ts (offline_env []) a, parsed_ts (offline_env []) b) of
             (Some x, Some y) \<Rightarrow> y \<le> x
           | (Some x, None) \<Rightarrow> 0 \<le> x
           | (None, Some y) \<Rightarrow> y \<le> 0
           | (None, None) \<Rightarrow> True))
        (sort_batch (offline_env [])
           [sample_rec ''bad'' ''Urgent'' ''not-a-date'',
            sample_rec ''new'' ''Urgent'' ''2024-01-01T00:00:00+00:00''])"
proof -
  have u: "urgent (sample_rec mid ''Urgent'' ts)" for mid ts
    by (simp add: urgent_def sample_rec_def)
  show ?thesis
    using sort_batch_order [of "offline_env []"
            "[sample_rec ''bad'' ''Urgent'' ''not-a-date'',
              sample_rec ''new'' ''Urgent'' ''2024-01-01T00:00:00+00:00'']"] u
    by simp
qed

text \<open>
  Claim C3, as stated, fails: a record whose timestamp fails to parse is placed
  before a record of the same tier whose timestamp parses to a time before the epoch.
\<close>

theorem sort_batch_unparseable_counterexample:
  "sort_batch (offline_env [])
     [sample_rec ''old'' ''Not urgent'' ''1960-01-01T00:00:00+00:00'',
      sample_rec ''bad'' ''Not urgent'' ''not-a-date'']
   = [sample_rec ''bad'' ''Not urgent'' ''not-a-date'',
      sample_rec ''old'' ''Not urgent'' ''1960-01-01T00:00:00+00:00'']
   \<and> parsed_ts (offline_env []) (sample_rec ''bad'' ''Not urgent'' ''not-a-date'') = None
   \<and> parsed_ts (offline_env []) (sample_rec ''old'' ''Not urgent'' ''1960-01-01T00:00:00+00:00'')
       = Some (- 315619200000000)"
proof -
  have a: "python_iso_timestamp ''not-a-date'' = None" by code_simp
  have b: "python_iso_timestamp ''1960-01-01T00:00:00+00:00'' = Some (- 315619200000000)"
    by code_simp
  show ?thesis
    by (simp add: sort_batch_def sort_key_of_def parsed_ts_def sample_rec_def offline_env_def a b
          less_eq_prod_def)
qed

section \<open>Properties of the ordered read\<close>

lemma fetch_sorted_priority:
  "sorted_wrt (\<lambda>a b. (priority_case a, Desc (datetime_received ev a))
                     \<le> (priority_case b, Desc (datetime_received ev b)))
     (sort_key (\<lambda>row. (priority_case row, Desc (datetime_received ev row))) rows)"
proof -
  have "sorted (map (\<lambda>row. (priority_case row, Desc (datetime_received ev row)))
                    (sort_key (\<lambda>row. (priority_case row, Desc (datetime_received ev row))) rows))"
    by (rule sorted_sort_key)
  then show ?thesis by (simp add: sorted_map)
qed

lemma fetch_sorted_time:
  "sorted_wrt (\<lambda>a b. datetime_received ev b \<le> datetime_received ev a)
     (sort_key (\<lambda>row. Desc (datetime_received ev row)) rows)"
proof -
  have "sorted (map (\<lambda>row. Desc (datetime_received ev row))
                    (sort_key (\<lambda>row. Desc (datetime_received ev row)) rows))"
    by (rule sorted_sort_key)
  then show ?thesis by (simp add: sorted_map less_eq_desc_def)
qed

lemma priority_key_le:
  "(priority_case a, Desc (datetime_received ev a)) \<le> (priority_case b, Desc (datetime_received ev b))
   \<Longrightarrow> \<not> (\<not> urgent (cols a) \<and> urgent (cols b))
       \<and> (urgent (cols a) = urgent (cols b) \<longrightarrow> datetime_received ev b \<le> datetime_received ev a)"
  by (auto simp: priority_case_def urgent_def less_eq_prod_def less_eq_desc_def less_desc_def
           split: if_splits)

text \<open>
  Claim C6, amended.  For a limit that is not negative, \<open>fetch_emails\<close> returns the
  first \<open>limit\<close> rows of an ordering of the whole table.  With
  \<open>order_by_priority\<close> no row that is not Urgent precedes an Urgent one and, within a
  priority tier, the values of SQLite's \<open>datetime(received_at)\<close> do not increase, the
  rows whose timestamp SQLite cannot read (\<open>NULL\<close>) coming last; without it the whole
  ordering is by non-increasing \<open>datetime(received_at)\<close>.  That value has a resolution
  of one second.
\<close>

theorem fetch_emails_order:
  assumes "0 \<le> limit"
  shows "(\<exists>full. mset full = mset (emails d)
            \<and> fetch_emails ev True limit d = take (nat limit) full
            \<and> sorted_wrt (\<lambda>a b. \<not> (\<not> urgent (cols a) \<and> urgent (cols b))) full
            \<and> sorted_wrt (\<lambda>a b. urgent (cols a) = urgent (cols b) \<longrightarrow>
                              datetime_received ev b \<le> datetime_received ev a) full)
         \<and> (\<exists>full. mset full = mset (emails d)
            \<and> fetch_emails ev False limit d = take (nat limit) full
            \<and> sorted_wrt (\<lambda>a b. datetime_received ev b \<le> datetime_received ev a) full)"
proof (intro conjI)
  let ?full = "sort_key (\<lambda>row. (priority_case row, Desc (datetime_received ev row))) (emails d)"
  have "mset ?full = mset (emails d)" by simp
  moreover from assms have "fetch_emails ev True limit d = take (nat limit) ?full"
    by (simp add: fetch_emails_def sql_limit_def)
  moreover have "sorted_wrt (\<lambda>a b. \<not> (\<not> urgent (cols a) \<and> urgent (cols b))) ?full"
    by (rule sorted_wrt_mono_rel[OF _ fetch_sorted_priority]) (use priority_key_le in blast)
  moreover have "sorted_wrt (\<lambda>a b. urgent (cols a) = urgent (cols b) \<longrightarrow>
                              datetime_received ev b \<le> datetime_received ev a) ?full"
    by (rule sorted_wrt_mono_rel[OF _ fetch_sorted_priority]) (use priority_key_le in blast)
  ultimately show "\<exists>full. mset full = mset (emails d)
            \<and> fetch_emails ev True limit d = take (nat limit) full
            \<and> sorted_wrt (\<lambda>a b. \<not> (\<not> urgent (cols a) \<and> urgent (cols b))) full
            \<and> sorted_wrt (\<lambda>a b. urgent (cols a) = urgent (cols b) \<longrightarrow>
                              datetime_received ev b \<le> datetime_received ev a) full"
    by blast
next
  let ?full = "sort_key (\<lambda>row. Desc (datetime_received ev row)) (emails d)"
  have "mset ?full = mset (emails d)" by simp
  moreover from assms have "fetch_emails ev False limit d = take (nat limit) ?full"
    by (simp add: fetch_emails_def sql_limit_def)
  ultimately show "\<exists>full. mset full = mset (emails d)
            \<and> fetch_emails ev False limit d = take (nat limit) full
            \<and> sorted_wrt (\<lambda>a b. datetime_received ev b \<le> datetime_received ev a) full"
    using fetch_sorted_time by blast
qed



text \<open>
  Claim C6, as stated, fails: two rows of one tier whose received timestamps lie in
  the same second are returned in the order of the table, here with the earlier
  timestamp first.
\<close>

theorem fetch_subsecond_counterexample:
  "map cols (fetch_emails (offline_env []) True 200
         (upsert_emails [sample_rec ''a'' ''Urgent'' ''2024-01-01T00:00:00.100000'',
                         sample_rec ''b'' ''Urgent'' ''2024-01-01T00:00:00.900000''] init_db))
     = [sample_rec ''a'' ''Urgent'' ''2024-01-01T00:00:00.100000'',
        sample_rec ''b'' ''Urgent'' ''2024-01-01T00:00:00.900000'']
   \<and> parsed_ts (offline_env []) (sample_rec ''a'' ''Urgent'' ''2024-01-01T00:00:00.100000'')
       = Some 1704067200100000
   \<and> parsed_ts (offline_env []) (sample_rec ''b'' ''Urgent'' ''2024-01-01T00:00:00.900000'')
       = Some 1704067200900000"
proof -
  let ?a = "sample_rec ''a'' ''Urgent'' ''2024-01-01T00:00:00.100000''"
  let ?b = "sample_rec ''b'' ''Urgent'' ''2024-01-01T00:00:00.900000''"
  let ?ev = "offline_env []"
  have dt1: "sqlite_datetime_naive ''2024-01-01T00:00:00.100000'' = Some ''2024-01-01 00:00:00''"
    by code_simp
  have dt2: "sqlite_datetime_naive ''2024-01-01T00:00:00.900000'' = Some ''2024-01-01 00:00:00''"
    by code_simp
  have ts1: "python_iso_timestamp ''2024-01-01T00:00:00.100000'' = Some 1704067200100000"
    by code_simp
  have ts2: "python_iso_timestamp ''2024-01-01T00:00:00.900000'' = Some 1704067200900000"
    by code_simp
  have d: "upsert_emails [?a, ?b] init_db
             = \<lparr> emails = [\<lparr> row_id = 1, cols = ?a \<rparr>, \<lparr> row_id = 2, cols = ?b \<rparr>],
                 sqlite_sequence = 2 \<rparr>"
    by (simp add: upsert_emails_def upsert_row_def unique_conflict_def init_db_def sample_rec_def)
  have k: "datetime_received ?ev \<lparr> row_id = n, cols = ?a \<rparr> = Some ''2024-01-01 00:00:00''"
          "datetime_received ?ev \<lparr> row_id = n, cols = ?b \<rparr> = Some ''2024-01-01 00:00:00''" for n
    by (simp_all add: datetime_received_def offline_env_def sample_rec_def dt1 dt2)
  have p: "priority_case \<lparr> row_id = n, cols = ?a \<rparr> = 0"
          "priority_case \<lparr> row_id = n, cols = ?b \<rparr> = 0" for n
    by (simp_all add: priority_case_def sample_rec_def)
  have f: "fetch_emails ?ev True 200 (upsert_emails [?a, ?b] init_db)
             = [\<lparr> row_id = 1, cols = ?a \<rparr>, \<lparr> row_id = 2, cols = ?b \<rparr>]"
    by (simp add: fetch_emails_def sql_limit_def d k p)
  have t: "parsed_ts ?ev ?a = Some 1704067200100000" "parsed_ts ?ev ?b = Some 1704067200900000"
    by (simp_all add: parsed_ts_def offline_env_def sample_rec_def ts1 ts2)
  from f t show ?thesis by simp
qed

theorem fetch_emails_order_witness:
  "(0::int) \<le> 200
   \<and> urgent (cols \<lparr> row_id = 1, cols = sample_rec ''a'' ''Urgent'' ''2024-01-01T00:00:00'' \<rparr>)
     = urgent (cols \<lparr> row_id = 2, cols = sample_rec ''b'' ''Urgent'' ''2024-01-02T00:00:00'' \<rparr>)
   \<and> (\<exists>full. mset full = mset (emails (upsert_emails
                  [sample_rec ''a'' ''Urgent'' ''2024-01-01T00:00:00'',
                   sample_rec ''b'' ''Urgent'' ''2024-01-02T00:00:00''] init_db))
          \<and> fetch_emails (offline_env []) True 200 (upsert_emails
                  [sample_rec ''a'' ''Urgent'' ''2024-01-01T00:00:00'',
                   sample_rec ''b'' ''Urgent'' ''2024-01-02T00:00:00''] init_db) = take (nat 200) full
          \<and> sorted_wrt (\<lambda>a b. \<not> (\<not> urgent (cols a) \<and> urgent (cols b))) full
          \<and> sorted_wrt (\<lambda>a b. urgent (cols a) = urgent (cols b) \<longrightarrow>
                 datetime_received (offline_env []) b \<le> datetime_received (offline_env []) a) full)"
proof -
  have u: "urgent (sample_rec mid ''Urgent'' ts)" for mid ts
    by (simp add: urgent_def sample_rec_def)
  have l: "(0::int) \<le> 200" by simp
  show ?thesis
    using fetch_emails_order [OF l, of "upsert_emails
                  [sample_rec ''a'' ''Urgent'' ''2024-01-01T00:00:00'',
                   sample_rec ''b'' ''Urgent'' ''2024-01-02T00:00:00''] init_db" "offline_env []"] u
    by simp
qed

section \<open>Properties of repeated ingestion\<close>

lemma normalize_raw_given:
  assumes "truthy (dict_get e ''message_id'')" "truthy (dict_get e ''received_at'')"
  shows "normalize_raw (ev\<lparr>py_hash := h, utcnow_iso := c\<rparr>) i e = normalize_raw ev i e"
  using assms by (simp add: normalize_raw_def py_or_def)

lemma analyze_email_env:
  "analyze_email (ev\<lparr>py_hash := h, utcnow_iso := c\<rparr>) e = analyze_email ev e"
  by (simp add: analyze_email_def Let_def split: pyval.splits option.splits)

lemma generate_response_env:
  "generate_response (ev\<lparr>py_hash := h, utcnow_iso := c\<rparr>) e an = generate_response ev e an"
  by (simp add: generate_response_def retrieve_relevant_kb_def Let_def split: pyval.splits)

lemma process_email_env:
  assumes "truthy (dict_get e ''message_id'')" "truthy (dict_get e ''received_at'')"
  shows "process_email (ev\<lparr>py_hash := h, utcnow_iso := c\<rparr>) i e = process_email ev i e"
  using assms
  by (simp add: process_email_def normalize_raw_given analyze_email_env generate_response_env)

lemma process_all_env:
  assumes "\<forall>e \<in> set es. truthy (dict_get e ''message_id'') \<and> truthy (dict_get e ''received_at'')"
  shows "process_all (ev\<lparr>py_hash := h, utcnow_iso := c\<rparr>) i es = process_all ev i es"
  using assms by (induction es arbitrary: i) (simp_all add: process_email_env split: sum.splits)

lemma sort_batch_env: "sort_batch (ev\<lparr>py_hash := h, utcnow_iso := c\<rparr>) rs = sort_batch ev rs"
proof -
  have "sort_key_of (ev\<lparr>py_hash := h, utcnow_iso := c\<rparr>) = sort_key_of ev"
    by (rule ext) (simp add: sort_key_of_def split: pyval.splits option.splits)
  then show ?thesis by (simp add: sort_batch_def)
qed

lemma message_id_normalized: "message_id (normalize_raw ev i e) \<noteq> PyNone"
proof -
  have "truthy (message_id (normalize_raw ev i e))"
    by (simp add: normalize_raw_def py_or_def derived_message_id_def)
  then show ?thesis by auto
qed

lemma process_all_ids:
  assumes "process_all ev i es = Inr rs"
  shows "\<forall>r \<in> set rs. message_id r \<noteq> PyNone"
  using assms
proof (induction es arbitrary: i rs)
  case Nil
  then show ?case by simp
next
  case (Cons e es)
  from Cons.prems obtain r rs' where
    r: "process_email ev i e = Inr r" and rs': "process_all ev (Suc i) es = Inr rs'" and
    eq: "rs = r # rs'"
    by (auto split: sum.splits)
  from r have "message_id r = message_id (normalize_raw ev i e)"
    by (simp add: process_email_fields)
  with Cons.IH[OF rs'] eq show ?case by (simp add: message_id_normalized)
qed

text \<open>
  Claim C1, amended.  For a batch in which every raw email carries a non-empty
  message identifier and a non-empty received timestamp, a second run of
  \<open>ingest_latest\<close> over the same batch, with the same external service, knowledge base
  and timestamp parser but any hash salt and any clock, leaves the rows of the table
  exactly as the first run left them: the same rows, in the same order, with the same
  row numbers and the same field values, none added.  When the first run raises, the
  second raises the same error and the table is untouched.
\<close>

theorem ingest_idempotent:
  assumes "\<forall>e \<in> set raw_emails.
             truthy (dict_get e ''message_id'') \<and> truthy (dict_get e ''received_at'')"
  shows "(\<forall>d1. ingest_latest ev raw_emails d = Inr d1 \<longrightarrow>
            (\<exists>d2. ingest_latest (ev\<lparr>py_hash := h, utcnow_iso := c\<rparr>) raw_emails d1 = Inr d2
                  \<and> emails d2 = emails d1))
         \<and> (\<forall>err. ingest_latest ev raw_emails d = Inl err \<longrightarrow>
              ingest_latest (ev\<lparr>py_hash := h, utcnow_iso := c\<rparr>) raw_emails d = Inl err)"
proof (intro conjI allI impI)
  fix d1 assume run1: "ingest_latest ev raw_emails d = Inr d1"
  then obtain rs where rs: "process_all ev 0 raw_emails = Inr rs"
    by (auto simp: ingest_latest_def split: sum.splits)
  let ?ordered = "sort_batch ev rs"
  from run1 rs have d1: "d1 = (if ?ordered \<noteq> [] then upsert_emails ?ordered d else d)"
    by (auto simp: ingest_latest_def Let_def)
  have ids: "\<forall>r \<in> set ?ordered. message_id r \<noteq> PyNone"
    using process_all_ids[OF rs] by (simp add: sort_batch_def)
  have run2: "ingest_latest (ev\<lparr>py_hash := h, utcnow_iso := c\<rparr>) raw_emails d1
                = Inr (if ?ordered \<noteq> [] then upsert_emails ?ordered d1 else d1)"
    using rs by (simp add: ingest_latest_def process_all_env[OF assms] sort_batch_env Let_def)
  have "emails (if ?ordered \<noteq> [] then upsert_emails ?ordered d1 else d1) = emails d1"
    using upsert_emails_idem[OF ids, of d] by (simp add: d1)
  with run2 show "\<exists>d2. ingest_latest (ev\<lparr>py_hash := h, utcnow_iso := c\<rparr>) raw_emails d1 = Inr d2
                  \<and> emails d2 = emails d1"
    by blast
next
  fix err assume "ingest_latest ev raw_emails d = Inl err"
  then show "ingest_latest (ev\<lparr>py_hash := h, utcnow_iso := c\<rparr>) raw_emails d = Inl err"
    by (auto simp: ingest_latest_def process_all_env[OF assms] Let_def
             split: sum.splits if_splits)
qed


lemma process_email_offline:
  assumes "\<not> truthy (GEMINI_API_KEY ev)" "sender (normalize_raw ev i e) = PyStr s"
  shows "\<exists>r. process_email ev i e = Inr r"
  using assms by (simp add: process_email_def Let_def generate_response_fallback)

lemma ingest_latest_single:
  assumes "process_email ev 0 e = Inr r"
  shows "ingest_latest ev [e] d = Inr (upsert_row r d)"
  using assms by (simp add: ingest_latest_def sort_batch_def upsert_emails_def)

theorem ingest_idempotent_witness:
  "truthy (dict_get (sample_raw [(''message_id'', PyStr ''m1''), (''sender'', PyStr ''Ann <ann@example.com>''),
                 (''subject'', PyStr ''Help''), (''body'', PyStr ''I cannot log in.''),
                 (''received_at'', PyStr ''2024-04-30T08:00:00'')]) ''message_id'')
   \<and> truthy (dict_get (sample_raw [(''message_id'', PyStr ''m1''), (''sender'', PyStr ''Ann <ann@example.com>''),
                 (''subject'', PyStr ''Help''), (''body'', PyStr ''I cannot log in.''),
                 (''received_at'', PyStr ''2024-04-30T08:00:00'')]) ''received_at'')
   \<and> (\<exists>d1 d2.
         ingest_latest (offline_env ''2024-05-01T10:00:00'')
           [sample_raw [(''message_id'', PyStr ''m1''), (''sender'', PyStr ''Ann <ann@example.com>''),
                 (''subject'', PyStr ''Help''), (''body'', PyStr ''I cannot log in.''),
                 (''received_at'', PyStr ''2024-04-30T08:00:00'')]] init_db = Inr d1
         \<and> ingest_latest ((offline_env ''2024-05-01T10:00:00'')
                            \<lparr>py_hash := (\<lambda>v. 7), utcnow_iso := (\<lambda>i. ''2024-05-01T10:05:00'')\<rparr>)
           [sample_raw [(''message_id'', PyStr ''m1''), (''sender'', PyStr ''Ann <ann@example.com>''),
                 (''subject'', PyStr ''Help''), (''body'', PyStr ''I cannot log in.''),
                 (''received_at'', PyStr ''2024-04-30T08:00:00'')]] d1 = Inr d2
         \<and> emails d2 = emails d1)"
proof -
  let ?ev = "offline_env ''2024-05-01T10:00:00''"
  let ?raw = "sample_raw [(''message_id'', PyStr ''m1''), (''sender'', PyStr ''Ann <ann@example.com>''),
                 (''subject'', PyStr ''Help''), (''body'', PyStr ''I cannot log in.''),
                 (''received_at'', PyStr ''2024-04-30T08:00:00'')]"
  have given: "\<forall>e \<in> set [?raw]. truthy (dict_get e ''message_id'') \<and> truthy (dict_get e ''received_at'')"
    by (simp add: sample_raw_def dict_get_def)
  have "\<not> truthy (GEMINI_API_KEY ?ev)" by (simp add: offline_env_def)
  moreover have "sender (normalize_raw ?ev 0 ?raw) = PyStr ''Ann <ann@example.com>''"
    by (simp add: normalize_raw_def sample_raw_def dict_get_default_def)
  ultimately obtain r where "process_email ?ev 0 ?raw = Inr r"
    using process_email_offline by blast
  then have run1: "ingest_latest ?ev [?raw] init_db = Inr (upsert_row r init_db)"
    by (rule ingest_latest_single)
  with ingest_idempotent [OF given, where ev = ?ev and d = init_db and h = "\<lambda>v. 7"
                            and c = "\<lambda>i. ''2024-05-01T10:05:00''"]
  obtain d2 where
    "ingest_latest (?ev\<lparr>py_hash := (\<lambda>v. 7), utcnow_iso := (\<lambda>i. ''2024-05-01T10:05:00'')\<rparr>)
       [?raw] (upsert_row r init_db) = Inr d2" "emails d2 = emails (upsert_row r init_db)"
    by blast
  with run1 have "\<exists>d1 d2. ingest_latest ?ev [?raw] init_db = Inr d1
      \<and> ingest_latest (?ev\<lparr>py_hash := (\<lambda>v. 7), utcnow_iso := (\<lambda>i. ''2024-05-01T10:05:00'')\<rparr>)
            [?raw] d1 = Inr d2
      \<and> emails d2 = emails d1"
    by blast
  with given show ?thesis by simp
qed

text \<open>
  Claim C1, as stated, fails on a raw email without received timestamp: each run
  fills in the reading of its clock, so the second run overwrites the stored
  timestamp with a later one.
\<close>

theorem ingest_clock_counterexample:
  "map received_at (stored (ingest_runs [offline_env ''2024-05-01T10:00:00'']
       [sample_raw [(''message_id'', PyStr ''m1''), (''sender'', PyStr ''Ann <ann@example.com>''),
                    (''subject'', PyStr ''Help''), (''body'', PyStr ''I cannot log in.'')]] init_db))
     = [PyStr ''2024-05-01T10:00:00'']
   \<and> map received_at (stored (ingest_runs
       [offline_env ''2024-05-01T10:00:00'', offline_env ''2024-05-01T10:05:00'']
       [sample_raw [(''message_id'', PyStr ''m1''), (''sender'', PyStr ''Ann <ann@example.com>''),
                    (''subject'', PyStr ''Help''), (''body'', PyStr ''I cannot log in.'')]] init_db))
     = [PyStr ''2024-05-01T10:05:00'']"
proof -
  let ?raw = "sample_raw [(''message_id'', PyStr ''m1''), (''sender'', PyStr ''Ann <ann@example.com>''),
                    (''subject'', PyStr ''Help''), (''body'', PyStr ''I cannot log in.'')]"
  have run: "\<exists>r. process_email (offline_env now) 0 ?raw = Inr r
               \<and> message_id r = PyStr ''m1'' \<and> received_at r = PyStr now" for now
  proof -
    have n: "message_id (normalize_raw (offline_env now) 0 ?raw) = PyStr ''m1''"
            "sender (normalize_raw (offline_env now) 0 ?raw) = PyStr ''Ann <ann@example.com>''"
            "received_at (normalize_raw (offline_env now) 0 ?raw) = PyStr now"
      by (simp_all add: normalize_raw_def sample_raw_def dict_get_def dict_get_default_def py_or_def
            offline_env_def)
    have "\<not> truthy (GEMINI_API_KEY (offline_env now))" by (simp add: offline_env_def)
    with n(2) obtain r where r: "process_email (offline_env now) 0 ?raw = Inr r"
      using process_email_offline by blast
    with n show ?thesis using process_email_fields[OF r] by simp
  qed
  from run obtain r1 where r1: "process_email (offline_env ''2024-05-01T10:00:00'') 0 ?raw = Inr r1"
    "message_id r1 = PyStr ''m1''" "received_at r1 = PyStr ''2024-05-01T10:00:00''" by blast
  from run obtain r2 where r2: "process_email (offline_env ''2024-05-01T10:05:00'') 0 ?raw = Inr r2"
    "message_id r2 = PyStr ''m1''" "received_at r2 = PyStr ''2024-05-01T10:05:00''" by blast
  have d1: "emails (upsert_row r1 init_db) = [\<lparr> row_id = 1, cols = r1 \<rparr>]"
    by (simp add: upsert_row_def unique_conflict_def init_db_def)
  have d2: "emails (upsert_row r2 (upsert_row r1 init_db)) = [\<lparr> row_id = 1, cols = r2 \<rparr>]"
    using r1(2) r2(2) by (simp add: upsert_row_def unique_conflict_def init_db_def)
  have "ingest_runs [offline_env ''2024-05-01T10:00:00''] [?raw] init_db = Inr (upsert_row r1 init_db)"
    by (simp add: ingest_latest_single[OF r1(1)])
  moreover have "ingest_runs [offline_env ''2024-05-01T10:00:00'', offline_env ''2024-05-01T10:05:00'']
                   [?raw] init_db = Inr (upsert_row r2 (upsert_row r1 init_db))"
    by (simp add: ingest_latest_single[OF r1(1)] ingest_latest_single[OF r2(1)])
  ultimately show ?thesis
    by (simp add: stored_def d1 d2 r1(3) r2(3))
qed

end
